theory Spec2Isabelle
  imports Main
begin

section \<open>JavaScript values and built-in functions\<close>

text \<open>
  The server is a single Node.js file, \<^verbatim>\<open>index.js\<close>. Its handlers are embedded as HOL
  functions; what they use of the language and of the Node library is written out first.

  \<^item> A string is a \<^typ>\<open>string\<close>: a list of 8-bit characters, read as Latin-1 code units.
    Header values and multipart file names reach the program in that range; a route
    parameter with a character beyond it is outside the model.
  \<^item> A number is an \<^typ>\<open>int\<close>, and \<open>NaN\<close> is \<open>None\<close>. The program's numbers are doubles:
    the two agree on every integer of magnitude at most \<open>2^53 - 1\<close>, which covers every
    file size and every offset inside a file.
  \<^item> \<^verbatim>\<open>console.log\<close> calls are left out: they do not influence a response.
\<close>

type_synonym js_number = "int option"

definition code_unit :: "char \<Rightarrow> nat" where
  "code_unit c = of_char c"

definition MAX_SAFE_INTEGER :: int where
  "MAX_SAFE_INTEGER = 2 ^ 53 - 1"

text \<open>
  Number to string, for the integers the model holds: the decimal digits in full. The
  program prints a double, which gives the same text for every integer of magnitude at
  most \<open>2^53 - 1\<close>; a larger value is first rounded to a double, and from \<open>10^21\<close> on it
  is printed with an exponent. A property that quotes printed digits is therefore
  stated for safe integers only.
\<close>

fun decimal :: "nat \<Rightarrow> string" where
  "decimal n = (if n < 10 then [''0123456789'' ! n]
                else decimal (n div 10) @ [''0123456789'' ! (n mod 10)])"

declare decimal.simps [simp del]

definition show_int :: "int \<Rightarrow> string" where
  "show_int i = (if i < 0 then CHR ''-'' # decimal (nat (- i)) else decimal (nat i))"

definition show_number :: "js_number \<Rightarrow> string" where
  "show_number v = (case v of None \<Rightarrow> ''NaN'' | Some i \<Rightarrow> show_int i)"

text \<open>
  \<^verbatim>\<open>parseInt(s, 10)\<close>: leading white space is skipped, one sign is read, then the longest
  run of decimal digits; no digit gives \<open>NaN\<close>. The result here is the number the digits
  denote; the program's is the double nearest to it (\<open>Infinity\<close> for a very long run), the
  same number whenever its magnitude is at most \<open>2^53 - 1\<close>.
\<close>

definition is_ws :: "char \<Rightarrow> bool" where
  "is_ws c = (code_unit c \<in> {9, 10, 11, 12, 13, 32, 160})"

definition is_digit :: "char \<Rightarrow> bool" where
  "is_digit c = (48 \<le> code_unit c \<and> code_unit c \<le> 57)"

definition digit_val :: "char \<Rightarrow> nat" where
  "digit_val c = code_unit c - 48"

definition digits_value :: "string \<Rightarrow> nat" where
  "digits_value ds = foldl (\<lambda>a c. 10 * a + digit_val c) 0 ds"

definition parseInt :: "string \<Rightarrow> js_number" where
  "parseInt s =
     (let t = dropWhile is_ws s;
          neg = (t \<noteq> [] \<and> hd t = CHR ''-'');
          u = (if t \<noteq> [] \<and> (hd t = CHR ''-'' \<or> hd t = CHR ''+'') then tl t else t);
          ds = takeWhile is_digit u
      in if ds = [] then None
         else Some (if neg then - int (digits_value ds) else int (digits_value ds)))"

text \<open>
  \<^verbatim>\<open>s.replace(/pat/, rep)\<close> for a pattern without special characters and without the
  \<^verbatim>\<open>g\<close> flag: the first occurrence of \<open>pat\<close> is replaced.
\<close>

fun replace_first :: "string \<Rightarrow> string \<Rightarrow> string \<Rightarrow> string" where
  "replace_first pat rep [] = []"
| "replace_first pat rep (c # cs) =
     (if take (length pat) (c # cs) = pat then rep @ drop (length pat) (c # cs)
      else c # replace_first pat rep cs)"

text \<open>\<^verbatim>\<open>s.split(d)\<close> for a one-character separator: never empty, \<^verbatim>\<open>"".split("-")\<close> is \<^verbatim>\<open>[""]\<close>.\<close>

fun split_on :: "char \<Rightarrow> string \<Rightarrow> string list" where
  "split_on d [] = [[]]"
| "split_on d (c # cs) =
     (if c = d then [] # split_on d cs
      else (c # hd (split_on d cs)) # tl (split_on d cs))"

text \<open>\<^verbatim>\<open>parts[i]\<close>: \<open>undefined\<close> past the end of the array.\<close>

definition at_index :: "'a list \<Rightarrow> nat \<Rightarrow> 'a option" where
  "at_index xs i = (if i < length xs then Some (xs ! i) else None)"

text \<open>Truthiness of a value that is a string or \<open>undefined\<close>: the empty string is falsy.\<close>

definition truthy :: "string option \<Rightarrow> bool" where
  "truthy v = (case v of None \<Rightarrow> False | Some s \<Rightarrow> s \<noteq> [])"

text \<open>\<^verbatim>\<open>xs.includes(x)\<close>.\<close>

definition array_includes :: "'a list \<Rightarrow> 'a \<Rightarrow> bool" where
  "array_includes xs x = (x \<in> set xs)"

text \<open>
  \<^verbatim>\<open>s.toLowerCase()\<close> on Latin-1: the letters \<open>A\<close> to \<open>Z\<close> and the accented capitals
  \<open>0xC0\<close> to \<open>0xDE\<close> (without the multiplication sign \<open>0xD7\<close>) move up by 32, which sets
  bit 5 of the code unit.
\<close>

definition lower_char :: "char \<Rightarrow> char" where
  "lower_char c =
     (if (65 \<le> code_unit c \<and> code_unit c \<le> 90) \<or>
         (192 \<le> code_unit c \<and> code_unit c \<le> 222 \<and> code_unit c \<noteq> 215)
      then (case c of Char b0 b1 b2 b3 b4 b5 b6 b7 \<Rightarrow> Char b0 b1 b2 b3 b4 True b6 b7)
      else c)"

definition toLowerCase :: "string \<Rightarrow> string" where
  "toLowerCase s = map lower_char s"

subsection \<open>The \<^verbatim>\<open>path\<close> module (POSIX)\<close>

text \<open>
  \<^verbatim>\<open>path.basename(p)\<close>: trailing slashes are dropped, the result is what follows the last
  remaining slash.
\<close>

definition basename :: "string \<Rightarrow> string" where
  "basename p =
     rev (takeWhile (\<lambda>c. c \<noteq> CHR ''/'') (dropWhile (\<lambda>c. c = CHR ''/'') (rev p)))"

text \<open>
  \<^verbatim>\<open>path.extname(p)\<close>: from the last dot of the base name to its end; empty when the base
  name has no dot, when its only dot is its first character, or when it is \<^verbatim>\<open>..\<close>.
\<close>

definition extname :: "string \<Rightarrow> string" where
  "extname p =
     (let base = basename p;
          ext = rev (takeWhile (\<lambda>c. c \<noteq> CHR ''.'') (rev base))
      in if CHR ''.'' \<notin> set base \<or> length ext + 1 = length base \<or> base = ''..'' then []
         else CHR ''.'' # ext)"

text \<open>\<^verbatim>\<open>path.parse(p).name\<close>: the base name without its extension.\<close>

definition parse_name :: "string \<Rightarrow> string" where
  "parse_name p = take (length (basename p) - length (extname p)) (basename p)"

subsection \<open>The file system below the uploads directory\<close>

text \<open>
  Every path the program touches is \<^verbatim>\<open>path.join(uploadDir, a)\<close> or
  \<^verbatim>\<open>path.join(uploadDir, a, b)\<close>. A path is modelled by its components below
  \<^verbatim>\<open>uploadDir\<close>, \<open>[a]\<close> or \<open>[a, b]\<close>; the components are not normalised. A directory
  carries the size that \<^verbatim>\<open>stat\<close> reports for it.
\<close>

type_synonym path = "string list"

datatype entry = File string | Dir nat

type_synonym fs = "path \<rightharpoonup> entry"

definition existsSync :: "fs \<Rightarrow> path \<Rightarrow> bool" where
  "existsSync fs p = (fs p \<noteq> None)"

fun stat_size :: "entry \<Rightarrow> nat" where
  "stat_size (File bytes) = length bytes"
| "stat_size (Dir n) = n"

datatype js_error = ERR_OUT_OF_RANGE | EISDIR | ENOTDIR | ENOENT | FfmpegError string

text \<open>
  \<^verbatim>\<open>fs.createReadStream(p, {start, end})\<close>. The constructor throws unless both offsets are
  integers between 0 and \<open>2^53 - 1\<close> with \<open>start \<le> end\<close>. The stream then yields the
  bytes from \<open>start\<close> to \<open>end\<close> inclusive, stopping at the end of the file. On a
  directory the stream fails with \<open>EISDIR\<close>, which no handler of the program catches.
\<close>

fun createReadStream :: "entry \<Rightarrow> js_number \<Rightarrow> js_number \<Rightarrow> js_error + string" where
  "createReadStream ent (Some s) (Some e) =
     (if 0 \<le> s \<and> s \<le> MAX_SAFE_INTEGER \<and> 0 \<le> e \<and> e \<le> MAX_SAFE_INTEGER \<and> s \<le> e
      then (case ent of
              File bytes \<Rightarrow> Inr (take (nat (e - s + 1)) (drop (nat s) bytes))
            | Dir n \<Rightarrow> Inl EISDIR)
      else Inl ERR_OUT_OF_RANGE)"
| "createReadStream ent _ _ = Inl ERR_OUT_OF_RANGE"

text \<open>\<^verbatim>\<open>fs.createReadStream(p)\<close> without options: the whole file.\<close>

fun createReadStream_all :: "entry \<Rightarrow> js_error + string" where
  "createReadStream_all (File bytes) = Inr bytes"
| "createReadStream_all (Dir n) = Inl EISDIR"

section \<open>Configuration and helper functions of \<^verbatim>\<open>index.js\<close>\<close>

definition mediaMimeTypes :: "string list" where
  "mediaMimeTypes =
     [''video/mp4'', ''video/mkv'', ''video/webm'', ''video/avi'', ''video/quicktime'']"

definition mimeTypes :: "(string \<times> string) list" where
  "mimeTypes =
     [(''.mp4'', ''video/mp4''),
      (''.mkv'', ''video/x-matroska''),
      (''.webm'', ''video/webm''),
      (''.avi'', ''video/x-msvideo''),
      (''.mov'', ''video/quicktime''),
      (''.pdf'', ''application/pdf''),
      (''.docx'', ''application/vnd.openxmlformats-officedocument.wordprocessingml.document''),
      (''.txt'', ''text/plain''),
      (''.m3u8'', ''application/x-mpegURL''),
      (''.ts'', ''video/MP2T'')]"

definition getMimeType :: "string \<Rightarrow> string" where
  "getMimeType filename =
     (let ext = toLowerCase (extname filename)
      in case map_of mimeTypes ext of
           Some t \<Rightarrow> t
         | None \<Rightarrow> ''application/octet-stream'')"

text \<open>The character class \<^verbatim>\<open>[a-zA-Z0-9.\-_]\<close> and \<^verbatim>\<open>sanitizeFilename\<close>.\<close>

definition safe_char :: "char \<Rightarrow> bool" where
  "safe_char c =
     ((97 \<le> code_unit c \<and> code_unit c \<le> 122) \<or>
      (65 \<le> code_unit c \<and> code_unit c \<le> 90) \<or>
      (48 \<le> code_unit c \<and> code_unit c \<le> 57) \<or>
      c = CHR ''.'' \<or> c = CHR ''-'' \<or> c = CHR ''_'')"

definition sanitizeFilename :: "string \<Rightarrow> string" where
  "sanitizeFilename filename = map (\<lambda>c. if safe_char c then c else CHR ''_'') filename"

section \<open>Responses and effects\<close>

text \<open>
  A response is the status, the headers the handler sets itself, and the body. A handler
  also returns the list of its file-system and engine actions, in the order it performs
  them; tests for existence and \<^verbatim>\<open>stat\<close> calls are not listed. In a JSON body
  \<open>JMessage e\<close> stands for the message text of the error \<open>e\<close>, and the watch page is kept as
  the values the handler puts into its HTML: the file name, size and type and the
  address of the playlist.
\<close>

datatype json =
    JStr string
  | JNum int
  | JNull
  | JObj "(string \<times> json) list"
  | JMessage js_error

datatype body =
    Send string
  | SendJson json
  | Pipe string
  | WatchPage string nat string string

record response =
  status :: nat
  headers :: "(string \<times> string) list"
  body :: body

definition send :: "nat \<Rightarrow> string \<Rightarrow> response" where
  "send code text = \<lparr>status = code, headers = [], body = Send text\<rparr>"

definition send_json :: "nat \<Rightarrow> (string \<times> json) list \<Rightarrow> response" where
  "send_json code kvs = \<lparr>status = code, headers = [], body = SendJson (JObj kvs)\<rparr>"

text \<open>
  The command handed to the encoding engine, as the \<^verbatim>\<open>fluent-ffmpeg\<close> calls build it: the
  input, the option list and one output per quality level.
\<close>

record ffmpeg_output =
  target :: path
  videoCodec :: string
  out_size :: string
  videoBitrate :: string
  noAudio :: bool
  hls_segment_filename :: path

record ffmpeg_command =
  input :: path
  options :: "string list"
  outputs :: "ffmpeg_output list"

datatype effect =
    CreateReadStream path "(js_number \<times> js_number) option"
  | MkdirSync path
  | FfmpegRun ffmpeg_command
  | WriteFileSync path string
  | CreateWriteStream path

section \<open>The range-aware media handler: \<^verbatim>\<open>GET /uploads/:filename\<close>\<close>

text \<open>
  The two values the handler reads from the \<^verbatim>\<open>Range\<close> header. \<open>end\<close> falls back to
  \<open>fileSize - 1\<close> when the part after the first hyphen is missing or empty.
\<close>

definition range_parts :: "string \<Rightarrow> string list" where
  "range_parts rangeHeader = split_on CHR ''-'' (replace_first ''bytes='' [] rangeHeader)"

definition range_start :: "string \<Rightarrow> js_number" where
  "range_start rangeHeader = parseInt (hd (range_parts rangeHeader))"

definition range_end :: "string \<Rightarrow> int \<Rightarrow> js_number" where
  "range_end rangeHeader fileSize =
     (if truthy (at_index (range_parts rangeHeader) 1)
      then parseInt (range_parts rangeHeader ! 1)
      else Some (fileSize - 1))"

text \<open>\<^verbatim>\<open>start >= fileSize\<close> is false when \<open>start\<close> is \<open>NaN\<close>; arithmetic keeps \<open>NaN\<close>.\<close>

definition js_ge :: "js_number \<Rightarrow> int \<Rightarrow> bool" where
  "js_ge v n = (case v of None \<Rightarrow> False | Some i \<Rightarrow> n \<le> i)"

definition chunksize :: "js_number \<Rightarrow> js_number \<Rightarrow> js_number" where
  "chunksize start end =
     (case (start, end) of (Some s, Some e) \<Rightarrow> Some ((e - s) + 1) | _ \<Rightarrow> None)"

definition range_head ::
  "js_number \<Rightarrow> js_number \<Rightarrow> int \<Rightarrow> string \<Rightarrow> (string \<times> string) list" where
  "range_head start end fileSize mimeType =
     [(''Content-Range'',
         ''bytes '' @ show_number start @ ''-'' @ show_number end @ ''/'' @ show_int fileSize),
      (''Accept-Ranges'', ''bytes''),
      (''Content-Length'', show_number (chunksize start end)),
      (''Content-Type'', mimeType)]"

definition full_head :: "int \<Rightarrow> string \<Rightarrow> (string \<times> string) list" where
  "full_head fileSize mimeType =
     [(''Content-Length'', show_int fileSize), (''Content-Type'', mimeType)]"

text \<open>
  A handler returns its effects and either the response or the error that escapes it.
  The branch taken when a \<^verbatim>\<open>Range\<close> header is present: an argument error of
  \<^verbatim>\<open>createReadStream\<close> is thrown before a stream exists.
\<close>

definition serve_range ::
  "path \<Rightarrow> entry \<Rightarrow> int \<Rightarrow> string \<Rightarrow> string \<Rightarrow> effect list \<times> (js_error + response)" where
  "serve_range filePath ent fileSize mimeType rangeHeader =
     (let start = range_start rangeHeader;
          end = range_end rangeHeader fileSize
      in if js_ge start fileSize
         then ([], Inr (send 416
                (''Requested range not satisfiable\<newline>'' @ show_number start @
                 '' >= '' @ show_int fileSize)))
         else
           (case createReadStream ent start end of
              Inl ERR_OUT_OF_RANGE \<Rightarrow> ([], Inl ERR_OUT_OF_RANGE)
            | Inl e \<Rightarrow> ([CreateReadStream filePath (Some (start, end))], Inl e)
            | Inr bytes \<Rightarrow>
                ([CreateReadStream filePath (Some (start, end))],
                 Inr \<lparr>status = 206,
                      headers = range_head start end fileSize mimeType,
                      body = Pipe bytes\<rparr>)))"

text \<open>The branch taken without a \<^verbatim>\<open>Range\<close> header.\<close>

definition serve_full ::
  "path \<Rightarrow> entry \<Rightarrow> int \<Rightarrow> string \<Rightarrow> effect list \<times> (js_error + response)" where
  "serve_full filePath ent fileSize mimeType =
     (case createReadStream_all ent of
        Inl e \<Rightarrow> ([CreateReadStream filePath None], Inl e)
      | Inr bytes \<Rightarrow>
          ([CreateReadStream filePath None],
           Inr \<lparr>status = 200, headers = full_head fileSize mimeType, body = Pipe bytes\<rparr>))"

text \<open>
  The handler; its arguments are the file system, \<^verbatim>\<open>req.params.filename\<close> and
  \<^verbatim>\<open>req.headers.range\<close>.
\<close>

definition uploads_get ::
  "fs \<Rightarrow> string \<Rightarrow> string option \<Rightarrow> effect list \<times> (js_error + response)" where
  "uploads_get fs filename rangeHeader =
     (let filePath = [filename] in
      case fs filePath of
        None \<Rightarrow> ([], Inr (send 404 ''File not found.''))
      | Some ent \<Rightarrow>
          let mimeType = getMimeType filename in
          if \<not> array_includes mediaMimeTypes mimeType
          then ([], Inr (send 400 ''File is not a supported media type.''))
          else
            let fileSize = int (stat_size ent) in
            (case rangeHeader of
               None \<Rightarrow> serve_full filePath ent fileSize mimeType
             | Some r \<Rightarrow>
                 if r \<noteq> [] then serve_range filePath ent fileSize mimeType r
                 else serve_full filePath ent fileSize mimeType))"

section \<open>Ingestion and the transcode job\<close>

subsection \<open>What the handlers use of their environment\<close>

text \<open>
  \<^verbatim>\<open>encodeURIComponent\<close> on Latin-1: letters, digits and \<^verbatim>\<open>- _ . ! ~ * ' ( )\<close> are kept, any
  other character becomes the percent-encoded bytes of its UTF-8 form.
\<close>

definition hex2 :: "nat \<Rightarrow> string" where
  "hex2 n = [''0123456789ABCDEF'' ! (n div 16), ''0123456789ABCDEF'' ! (n mod 16)]"

definition encode_char :: "char \<Rightarrow> string" where
  "encode_char c =
     (if safe_char c \<or> code_unit c \<in> {33, 126, 42, 39, 40, 41} then [c]
      else if code_unit c < 128 then CHR ''%'' # hex2 (code_unit c)
      else CHR ''%'' # hex2 (192 + code_unit c div 64) @
           CHR ''%'' # hex2 (128 + code_unit c mod 64))"

definition encodeURIComponent :: "string \<Rightarrow> string" where
  "encodeURIComponent s = concat (map encode_char s)"

text \<open>
  \<open>protocol\<close> and \<open>host\<close> are \<^verbatim>\<open>req.protocol\<close> and \<^verbatim>\<open>req.get('host')\<close>; \<open>dir_size\<close> is the
  size the operating system reports for a directory it has just created.
\<close>

record env =
  protocol :: string
  host :: string
  dir_size :: nat

definition origin :: "env \<Rightarrow> string" where
  "origin env = protocol env @ ''://'' @ host env"

text \<open>
  Writing below the uploads directory. A file can be written where its parent is a
  directory and the path itself is not one; the uploads directory itself, \<open>[]\<close>, exists
  from start-up. \<^verbatim>\<open>mkdirSync\<close> is only called on a path that does not exist.
\<close>

definition is_dir :: "fs \<Rightarrow> path \<Rightarrow> bool" where
  "is_dir fs p = (case fs p of Some (Dir n) \<Rightarrow> True | Some (File bytes) \<Rightarrow> False | None \<Rightarrow> p = [])"

definition writeFileSync :: "fs \<Rightarrow> path \<Rightarrow> string \<Rightarrow> js_error + fs" where
  "writeFileSync fs p data =
     (if \<not> is_dir fs (butlast p)
      then Inl (if existsSync fs (butlast p) then ENOTDIR else ENOENT)
      else if is_dir fs p then Inl EISDIR
      else Inr (fs(p \<mapsto> File data)))"

definition mkdirSync :: "env \<Rightarrow> fs \<Rightarrow> path \<Rightarrow> fs" where
  "mkdirSync env fs p = fs(p \<mapsto> Dir (dir_size env))"

subsection \<open>The encoding engine\<close>

text \<open>
  The engine is an external process. What it does is a parameter of the model: whether it
  ended with an error, and for each output of the command, in order, the playlist and the
  numbered segments it left on disk. It writes nowhere but to the playlist path and the
  segment pattern of an output, and a write that the file system refuses leaves no file.
\<close>

record rendition_files =
  playlist :: "string option"
  segments :: "string list"

record engine_outcome =
  engine_error :: "string option"
  renditions :: "rendition_files list"

text \<open>The pattern \<^verbatim>\<open>%03d\<close> in a segment file name: the index, at least three digits wide.\<close>

definition pad3 :: "nat \<Rightarrow> string" where
  "pad3 i = replicate (3 - length (decimal i)) CHR ''0'' @ decimal i"

definition segment_path :: "path \<Rightarrow> nat \<Rightarrow> path" where
  "segment_path pattern i = butlast pattern @ [replace_first ''%03d'' (pad3 i) (last pattern)]"

definition engine_put :: "fs \<Rightarrow> path \<Rightarrow> string \<Rightarrow> fs" where
  "engine_put fs p data = (case writeFileSync fs p data of Inr fs' \<Rightarrow> fs' | Inl e \<Rightarrow> fs)"

fun write_segments :: "path \<Rightarrow> nat \<Rightarrow> string list \<Rightarrow> fs \<Rightarrow> fs" where
  "write_segments pattern i [] fs = fs"
| "write_segments pattern i (seg # segs) fs =
     write_segments pattern (Suc i) segs (engine_put fs (segment_path pattern i) seg)"

definition write_rendition :: "ffmpeg_output \<Rightarrow> rendition_files \<Rightarrow> fs \<Rightarrow> fs" where
  "write_rendition out files fs =
     write_segments (hls_segment_filename out) 0 (segments files)
       (case playlist files of
          None \<Rightarrow> fs
        | Some text \<Rightarrow> engine_put fs (target out) text)"

fun write_renditions :: "ffmpeg_output list \<Rightarrow> rendition_files list \<Rightarrow> fs \<Rightarrow> fs" where
  "write_renditions (out # outs) (files # rest) fs =
     write_renditions outs rest (write_rendition out files fs)"
| "write_renditions _ _ fs = fs"

definition ffmpeg_run :: "ffmpeg_command \<Rightarrow> engine_outcome \<Rightarrow> fs \<Rightarrow> fs" where
  "ffmpeg_run cmd eo fs = write_renditions (outputs cmd) (renditions eo) fs"

subsection \<open>Conversion to HLS\<close>

record quality_level =
  level_name :: string
  level_size :: string
  level_bitrate :: string

definition qualityLevels :: "quality_level list" where
  "qualityLevels =
     [\<lparr>level_name = ''720p'', level_size = ''1280x720'', level_bitrate = ''2800k''\<rparr>,
      \<lparr>level_name = ''480p'', level_size = ''854x480'', level_bitrate = ''1400k''\<rparr>,
      \<lparr>level_name = ''360p'', level_size = ''640x360'', level_bitrate = ''800k''\<rparr>]"

text \<open>The option lists of the two handlers; \<^verbatim>\<open>/upload\<close> also passes \<^verbatim>\<open>-s 640x360\<close>.\<close>

definition upload_options :: "string list" where
  "upload_options =
     [''-profile:v baseline'', ''-level 3.0'', ''-s'', ''640x360'', ''-start_number'', ''0'',
      ''-hls_time'', ''10'', ''-hls_list_size'', ''0'', ''-f'', ''hls'']"

definition upload_url_options :: "string list" where
  "upload_url_options =
     [''-profile:v baseline'', ''-level 3.0'', ''-start_number'', ''0'',
      ''-hls_time'', ''10'', ''-hls_list_size'', ''0'', ''-f'', ''hls'']"

definition level_output :: "path \<Rightarrow> quality_level \<Rightarrow> ffmpeg_output" where
  "level_output hlsOutputDir level =
     \<lparr>target = hlsOutputDir @ [level_name level @ ''.m3u8''],
      videoCodec = ''libx264'',
      out_size = level_size level,
      videoBitrate = level_bitrate level,
      noAudio = True,
      hls_segment_filename = hlsOutputDir @ [level_name level @ ''_%03d.ts'']\<rparr>"

definition ffmpegCommand :: "string list \<Rightarrow> path \<Rightarrow> path \<Rightarrow> ffmpeg_command" where
  "ffmpegCommand opts inputPath hlsOutputDir =
     \<lparr>input = inputPath, options = opts, outputs = map (level_output hlsOutputDir) qualityLevels\<rparr>"

text \<open>
  The master playlist. \<^verbatim>\<open>parseInt(level.bitrate)\<close> is called without a radix, which
  reads decimal digits unless the string starts with \<^verbatim>\<open>0x\<close>; no bit rate does.
\<close>

definition stream_inf :: "quality_level \<Rightarrow> string" where
  "stream_inf level =
     ''#EXT-X-STREAM-INF:BANDWIDTH='' @
     show_number (map_option (\<lambda>n. n * 1000) (parseInt (level_bitrate level))) @
     '',RESOLUTION='' @ level_size level @ ''\<newline>'' @ level_name level @ ''.m3u8\<newline>''"

definition masterPlaylist :: string where
  "masterPlaylist =
     foldl (\<lambda>text level. text @ stream_inf level) ''#EXTM3U\<newline>#EXT-X-VERSION:3\<newline>'' qualityLevels"

text \<open>
  The conversion block, which both ingestion handlers contain: make the output directory
  unless it exists, run the engine once and wait for it, then write the master playlist.
  The result is the effects, the file system afterwards, and the error thrown, if any.
\<close>

definition hls_convert ::
  "env \<Rightarrow> engine_outcome \<Rightarrow> string list \<Rightarrow> fs \<Rightarrow> path \<Rightarrow> string \<Rightarrow>
     effect list \<times> fs \<times> (js_error + unit)" where
  "hls_convert env eo opts fs inputPath filename =
     (let hlsOutputDir = [parse_name filename];
          missing = \<not> existsSync fs hlsOutputDir;
          fs1 = (if missing then mkdirSync env fs hlsOutputDir else fs);
          cmd = ffmpegCommand opts inputPath hlsOutputDir;
          fs2 = ffmpeg_run cmd eo fs1;
          acts = (if missing then [MkdirSync hlsOutputDir] else []) @ [FfmpegRun cmd]
      in case engine_error eo of
           Some msg \<Rightarrow> (acts, fs2, Inl (FfmpegError msg))
         | None \<Rightarrow>
             let masterPlaylistPath = hlsOutputDir @ [''master.m3u8''] in
             (case writeFileSync fs2 masterPlaylistPath masterPlaylist of
                Inl e \<Rightarrow> (acts, fs2, Inl e)
              | Inr fs3 \<Rightarrow>
                  (acts @ [WriteFileSync masterPlaylistPath masterPlaylist], fs3, Inr ())))"

subsection \<open>\<^verbatim>\<open>POST /upload-url\<close>\<close>

definition mimeToExt :: "(string \<times> string) list" where
  "mimeToExt =
     [(''video/mp4'', ''.mp4''),
      (''video/x-matroska'', ''.mkv''),
      (''video/webm'', ''.webm''),
      (''video/x-msvideo'', ''.avi''),
      (''video/quicktime'', ''.mov''),
      (''application/pdf'', ''.pdf''),
      (''application/vnd.openxmlformats-officedocument.wordprocessingml.document'', ''.docx''),
      (''text/plain'', ''.txt''),
      (''application/x-mpegURL'', ''.m3u8''),
      (''video/MP2T'', ''.ts'')]"

text \<open>
  \<^verbatim>\<open>getExtensionFromMime\<close>, applied to a header that may be absent. A header value that
  names a property of \<^verbatim>\<open>Object.prototype\<close> is outside the model.
\<close>

definition getExtensionFromMime :: "string option \<Rightarrow> string" where
  "getExtensionFromMime mimeType =
     (case mimeType of
        None \<Rightarrow> []
      | Some t \<Rightarrow> (case map_of mimeToExt t of Some ext \<Rightarrow> ext | None \<Rightarrow> []))"

text \<open>\<^verbatim>\<open>v || d\<close> for a value that is a string or \<open>undefined\<close>.\<close>

definition or_default :: "string option \<Rightarrow> string \<Rightarrow> string" where
  "or_default v d = (case v of None \<Rightarrow> d | Some s \<Rightarrow> if s \<noteq> [] then s else d)"

text \<open>\<^verbatim>\<open>parseInt(v, 10) || 0\<close> for a header that may be absent.\<close>

definition content_length_or_0 :: "string option \<Rightarrow> int" where
  "content_length_or_0 v =
     (case v of
        None \<Rightarrow> 0
      | Some s \<Rightarrow> (case parseInt s of None \<Rightarrow> 0 | Some n \<Rightarrow> n))"

text \<open>
  What the HTTP client returns: a failure (connection error, status outside 2xx), or the
  two response headers the handler reads and the body. The body is taken to arrive in
  full.
\<close>

datatype fetch_result =
    FetchFailed
  | Fetched "string option" "string option" string

text \<open>The MIME type and the media flag the handler derives from the response.\<close>

definition url_mimeType :: "string option \<Rightarrow> string" where
  "url_mimeType contentType = or_default contentType ''application/octet-stream''"

definition url_filename :: "string \<Rightarrow> string option \<Rightarrow> string" where
  "url_filename pathname contentType =
     (let filename = basename pathname
      in if filename = [] \<or> filename = ''/''
         then ''downloaded-file'' @ getExtensionFromMime contentType
         else filename)"

definition download_failed :: response where
  "download_failed =
     send_json 500 [(''error'', JStr ''Failed to download file from the provided URL.'')]"

text \<open>
  The handler. Its arguments are \<^verbatim>\<open>req.body.fileUrl\<close>, the path name of that URL
  (\<open>None\<close> when \<^verbatim>\<open>new URL(fileUrl)\<close> throws) and the result of the download. The timing
  fields of the response (\<^verbatim>\<open>downloadTime\<close>, \<^verbatim>\<open>downloadSpeed\<close>, \<^verbatim>\<open>uploadTime\<close>) are wall-clock
  values and are left out.
\<close>

definition upload_url ::
  "env \<Rightarrow> engine_outcome \<Rightarrow> fs \<Rightarrow> string option \<Rightarrow> string option \<Rightarrow> fetch_result \<Rightarrow>
     effect list \<times> fs \<times> response" where
  "upload_url env eo fs fileUrl pathname fetched =
     (if \<not> truthy fileUrl then ([], fs, send_json 400 [(''error'', JStr ''No URL provided.'')])
      else
        case (fetched, pathname) of
          (FetchFailed, _) \<Rightarrow> ([], fs, download_failed)
        | (Fetched contentType contentLength bytes, None) \<Rightarrow> ([], fs, download_failed)
        | (Fetched contentType contentLength bytes, Some pn) \<Rightarrow>
            let filename = url_filename pn contentType;
                mimeType = url_mimeType contentType;
                size = content_length_or_0 contentLength;
                sanitizedFilename = sanitizeFilename filename;
                filePath = [sanitizedFilename]
            in (case writeFileSync fs filePath bytes of
                  Inl e \<Rightarrow> ([CreateWriteStream filePath], fs, download_failed)
                | Inr fs1 \<Rightarrow>
                    let isMedia = array_includes mediaMimeTypes mimeType;
                        metadata = JObj [(''name'', JStr sanitizedFilename), (''size'', JNum size),
                                         (''type'', JStr mimeType)]
                    in if isMedia then
                         (case hls_convert env eo upload_url_options fs1 filePath
                                 sanitizedFilename of
                            (acts, fs', Inl e) \<Rightarrow>
                              (CreateWriteStream filePath # acts, fs', download_failed)
                          | (acts, fs', Inr u) \<Rightarrow>
                              (CreateWriteStream filePath # acts, fs',
                               send_json 200
                                 [(''message'',
                                     JStr ''Media file downloaded and converted to HLS successfully via URL.''),
                                  (''watchUrl'',
                                     JStr (origin env @ ''/watch/'' @
                                           encodeURIComponent sanitizedFilename)),
                                  (''fileUrl'', JNull),
                                  (''metadata'', metadata)]))
                       else
                         ([CreateWriteStream filePath], fs1,
                          send_json 200
                            [(''message'', JStr ''File downloaded successfully via URL.''),
                             (''watchUrl'', JNull),
                             (''fileUrl'',
                                JStr (origin env @ ''/uploads/'' @
                                      encodeURIComponent sanitizedFilename)),
                             (''metadata'', metadata)])))"

subsection \<open>\<^verbatim>\<open>GET /watch/:filename\<close>\<close>

definition watch :: "fs \<Rightarrow> string \<Rightarrow> response" where
  "watch fs filename =
     (let filePath = [filename] in
      case fs filePath of
        None \<Rightarrow> send 404 ''File not found.''
      | Some ent \<Rightarrow>
          let mimeType = getMimeType filename in
          if \<not> array_includes mediaMimeTypes mimeType
          then send 400 ''File is not a supported media type.''
          else
            let hlsOutputDir = [parse_name filename];
                masterPlaylistPath = hlsOutputDir @ [''master.m3u8'']
            in if \<not> existsSync fs masterPlaylistPath
               then send 404 ''Streaming not available for this file.''
               else \<lparr>status = 200, headers = [],
                     body = WatchPage filename (stat_size ent) mimeType
                              (''/uploads/'' @ encodeURIComponent filename @ ''/master.m3u8'')\<rparr>)"

subsection \<open>The \<^verbatim>\<open>/uploads\<close> middleware\<close>

text \<open>
  The middleware in front of the range handler either calls \<^verbatim>\<open>next()\<close>, which leads to
  the route \<^verbatim>\<open>GET /uploads/:filename\<close>, or hands the request to \<^verbatim>\<open>express.static\<close>. Its
  argument is \<^verbatim>\<open>req.path\<close>.
\<close>

datatype dispatch = CallNext | ExpressStatic

definition uploads_middleware :: "string \<Rightarrow> dispatch" where
  "uploads_middleware reqPath =
     (let filename = basename reqPath;
          mimeType = getMimeType filename
      in if array_includes mediaMimeTypes mimeType then CallNext else ExpressStatic)"

subsection \<open>Multer: \<^verbatim>\<open>upload.single('file')\<close>\<close>

text \<open>
  The file part of a multipart request, and \<^verbatim>\<open>req.file\<close> as the disk storage leaves it.
  The storage writes the part to \<^verbatim>\<open>path.join(uploadDir, filename)\<close>, replacing a file that is
  there. The size limit, which Multer enforces while it streams, is not modelled: a part is
  taken to be within \<^verbatim>\<open>MAX_UPLOAD_SIZE\<close>.
\<close>

record upload_part =
  originalname :: string
  mimetype :: string
  content :: string

record req_file = upload_part +
  filename :: string

datatype multer_error = LIMIT_UNEXPECTED_FILE | StorageError js_error

definition allowedMimeTypes :: "string list" where
  "allowedMimeTypes =
     mediaMimeTypes @
     [''application/pdf'', ''application/msword'',
      ''application/vnd.openxmlformats-officedocument.wordprocessingml.document'',
      ''text/plain'']"

definition fileFilter :: "upload_part \<Rightarrow> bool" where
  "fileFilter file = array_includes allowedMimeTypes (mimetype file)"

definition storage_filename :: "upload_part \<Rightarrow> string" where
  "storage_filename file = sanitizeFilename (originalname file)"

definition multer_single :: "fs \<Rightarrow> upload_part option \<Rightarrow> multer_error + fs \<times> req_file option" where
  "multer_single fs part =
     (case part of
        None \<Rightarrow> Inr (fs, None)
      | Some file \<Rightarrow>
          if \<not> fileFilter file then Inl LIMIT_UNEXPECTED_FILE
          else
            (case writeFileSync fs [storage_filename file] (content file) of
               Inl e \<Rightarrow> Inl (StorageError e)
             | Inr fs' \<Rightarrow>
                 Inr (fs', Some \<lparr>originalname = originalname file, mimetype = mimetype file,
                                 content = content file,
                                 filename = storage_filename file\<rparr>)))"

subsection \<open>\<^verbatim>\<open>POST /upload\<close>\<close>

definition upload_handler ::
  "env \<Rightarrow> engine_outcome \<Rightarrow> fs \<Rightarrow> req_file option \<Rightarrow> effect list \<times> fs \<times> response" where
  "upload_handler env eo fs file =
     (case file of
        None \<Rightarrow> ([], fs, send_json 400 [(''error'', JStr ''No file uploaded.'')])
      | Some f \<Rightarrow>
          let isMedia = array_includes mediaMimeTypes (mimetype f);
              originalFilename = filename f;
              fileUrl = origin env @ ''/uploads/'' @ encodeURIComponent originalFilename
          in if isMedia then
               (case hls_convert env eo upload_options fs [filename f] originalFilename of
                  (acts, fs', Inr u) \<Rightarrow>
                    let watchUrl = origin env @ ''/watch/'' @ encodeURIComponent originalFilename
                    in (acts, fs',
                        send_json 200
                          [(''message'',
                              JStr ''Media file uploaded and converted to HLS successfully.''),
                           (''watchUrl'', JStr watchUrl)])
                | (acts, fs', Inl e) \<Rightarrow>
                    (acts, fs',
                     send_json 500 [(''error'', JStr ''Error processing video for streaming.'')]))
             else
               ([], fs,
                send_json 200
                  [(''message'', JStr ''File uploaded successfully.''),
                   (''fileUrl'', JStr fileUrl)]))"

text \<open>
  The route: Multer, then the handler. A Multer error goes to the error-handling
  middleware, which answers 400 for a refused file type and for any other Multer error.
\<close>

definition post_upload ::
  "env \<Rightarrow> engine_outcome \<Rightarrow> fs \<Rightarrow> upload_part option \<Rightarrow> effect list \<times> fs \<times> response" where
  "post_upload env eo fs part =
     (case multer_single fs part of
        Inl LIMIT_UNEXPECTED_FILE \<Rightarrow>
          ([], fs, send_json 400 [(''error'', JStr ''File type not supported!'')])
      | Inl (StorageError e) \<Rightarrow> ([], fs, send_json 500 [(''error'', JMessage e)])
      | Inr (fs', file) \<Rightarrow> upload_handler env eo fs' file)"

subsection \<open>Counting engine invocations\<close>

fun is_ffmpeg_run :: "effect \<Rightarrow> bool" where
  "is_ffmpeg_run (FfmpegRun cmd) = True"
| "is_ffmpeg_run _ = False"

definition engine_runs :: "effect list \<Rightarrow> nat" where
  "engine_runs acts = length (filter is_ffmpeg_run acts)"

subsection \<open>Example inputs\<close>

text \<open>
  Concrete requests and engine outcomes, used where a property is run on an input: a
  server on \<^verbatim>\<open>localhost\<close>, an engine run that ends well and leaves one segment per
  rendition, an engine run that fails after one segment, and two uploads whose names
  differ only in a character that \<^verbatim>\<open>sanitizeFilename\<close> replaces.
\<close>

definition example_env :: env where
  "example_env = \<lparr>protocol = ''http'', host = ''localhost:8000'', dir_size = 4096\<rparr>"

definition engine_ended :: engine_outcome where
  "engine_ended =
     \<lparr>engine_error = None,
      renditions =
        [\<lparr>playlist = Some ''#EXTM3U 720'', segments = [''seg-a'']\<rparr>,
         \<lparr>playlist = Some ''#EXTM3U 480'', segments = [''seg-b'']\<rparr>,
         \<lparr>playlist = Some ''#EXTM3U 360'', segments = [''seg-c'']\<rparr>]\<rparr>"

definition engine_failed :: engine_outcome where
  "engine_failed =
     \<lparr>engine_error = Some ''ffmpeg exited with code 1'',
      renditions = [\<lparr>playlist = None, segments = [''seg-a'']\<rparr>]\<rparr>"

definition example_video :: upload_part where
  "example_video =
     \<lparr>originalname = ''my video.mp4'', mimetype = ''video/mp4'', content = ''VIDEO-1''\<rparr>"

definition example_video_again :: upload_part where
  "example_video_again =
     \<lparr>originalname = ''my_video.mp4'', mimetype = ''video/mp4'', content = ''VIDEO-2''\<rparr>"

section \<open>Properties\<close>

lemmas js_defs = range_parts_def range_start_def range_end_def parseInt_def is_ws_def
  is_digit_def digit_val_def digits_value_def code_unit_def truthy_def at_index_def js_ge_def

lemmas mime_defs = getMimeType_def extname_def basename_def toLowerCase_def lower_char_def
  mimeTypes_def mediaMimeTypes_def array_includes_def

subsection \<open>Range requests\<close>

text \<open>What the handler reads from a header written \<^verbatim>\<open>bytes=s-e\<close> or \<^verbatim>\<open>bytes=s-\<close>.\<close>

lemma digit_char:
  assumes "k < 10"
  shows "is_digit (''0123456789'' ! k) \<and> digit_val (''0123456789'' ! k) = k"
proof -
  from assms have "k = 0 \<or> k = 1 \<or> k = 2 \<or> k = 3 \<or> k = 4 \<or> k = 5 \<or> k = 6 \<or> k = 7 \<or> k = 8 \<or> k = 9"
    by arith
  then show ?thesis
    by (elim disjE) (simp_all add: is_digit_def digit_val_def code_unit_def)
qed

lemma digit_not_special:
  assumes "is_digit c"
  shows "c \<noteq> CHR ''-''" and "c \<noteq> CHR ''+''" and "\<not> is_ws c"
proof -
  show "c \<noteq> CHR ''-''"
  proof
    assume "c = CHR ''-''"
    with assms have "is_digit CHR ''-''" by (simp only:)
    then show False by (simp add: is_digit_def code_unit_def)
  qed
  show "c \<noteq> CHR ''+''"
  proof
    assume "c = CHR ''+''"
    with assms have "is_digit CHR ''+''" by (simp only:)
    then show False by (simp add: is_digit_def code_unit_def)
  qed
  show "\<not> is_ws c"
    using assms unfolding is_ws_def is_digit_def by auto
qed


lemma digits_value_snoc: "digits_value (ds @ [c]) = 10 * digits_value ds + digit_val c"
  by (simp add: digits_value_def)

lemma decimal_digits:
  "decimal n \<noteq> [] \<and> (\<forall>c \<in> set (decimal n). is_digit c) \<and> digits_value (decimal n) = n"
proof (induction n rule: decimal.induct)
  case (1 n)
  show ?case
  proof (cases "n < 10")
    case True
    then have d: "decimal n = [''0123456789'' ! n]"
      by (subst decimal.simps) (simp only: if_True)
    have "digits_value [''0123456789'' ! n] = digit_val (''0123456789'' ! n)"
      by (simp add: digits_value_def)
    with digit_char [OF True] show ?thesis
      unfolding d by simp
  next
    case False
    then have d: "decimal n = decimal (n div 10) @ [''0123456789'' ! (n mod 10)]"
      by (subst decimal.simps) (simp only: if_False)
    have m: "n mod 10 < 10" by simp
    note ih = "1.IH" [OF False]
    have "digits_value (decimal n) = 10 * (n div 10) + n mod 10"
      unfolding d digits_value_snoc using ih digit_char [OF m] by simp
    then have v: "digits_value (decimal n) = n" by simp
    have "\<forall>c \<in> set (decimal n). is_digit c"
      unfolding d using ih digit_char [OF m] by simp
    moreover have "decimal n \<noteq> []" unfolding d by simp
    ultimately show ?thesis using v by blast
  qed
qed

lemma parseInt_digits:
  assumes "ds \<noteq> []" and "\<forall>c \<in> set ds. is_digit c"
  shows "parseInt ds = Some (int (digits_value ds))"
proof -
  have h: "is_digit (hd ds)" using assms by simp
  have "\<not> is_ws (hd ds)" using h by (rule digit_not_special)
  then have dw: "dropWhile is_ws ds = ds"
    unfolding dropWhile_eq_self_iff by (rule disjI2)
  have tw: "takeWhile is_digit ds = ds"
    unfolding takeWhile_eq_all_conv using assms(2) .
  have nm: "hd ds \<noteq> CHR ''-''" and np: "hd ds \<noteq> CHR ''+''"
    using h by (rule digit_not_special)+
  have u: "(if ds \<noteq> [] \<and> (hd ds = CHR ''-'' \<or> hd ds = CHR ''+'') then tl ds else ds) = ds"
    using nm np by simp
  show ?thesis
    unfolding parseInt_def dw Let_def u tw using assms(1) nm by simp
qed

lemma parseInt_decimal: "parseInt (decimal n) = Some (int n)"
  using parseInt_digits [of "decimal n"] decimal_digits [of n] by simp

lemma decimal_no_hyphen: "CHR ''-'' \<notin> set (decimal n)"
  using decimal_digits [of n] digit_not_special(1) by blast


lemma split_on_absent: "d \<notin> set xs \<Longrightarrow> split_on d xs = [xs]"
  by (induction xs) auto

lemma split_on_first: "d \<notin> set xs \<Longrightarrow> split_on d (xs @ d # ys) = xs # split_on d ys"
  by (induction xs) auto

lemma replace_bytes_prefix: "replace_first ''bytes='' [] (''bytes='' @ r) = r"
  by simp

lemma canonical_range_parts:
  "range_parts (''bytes='' @ decimal s @ ''-'' @ decimal e) = [decimal s, decimal e]"
  "range_parts (''bytes='' @ decimal s @ ''-'') = [decimal s, []]"
proof -
  have a: "split_on CHR ''-'' (decimal s @ CHR ''-'' # decimal e) =
             decimal s # split_on CHR ''-'' (decimal e)"
    using decimal_no_hyphen by (rule split_on_first)
  have b: "split_on CHR ''-'' (decimal e) = [decimal e]"
    using decimal_no_hyphen by (rule split_on_absent)
  have c: "split_on CHR ''-'' (decimal s @ CHR ''-'' # []) = decimal s # split_on CHR ''-'' []"
    using decimal_no_hyphen by (rule split_on_first)
  have r1: "replace_first ''bytes='' [] (''bytes='' @ decimal s @ ''-'' @ decimal e) =
              decimal s @ CHR ''-'' # decimal e"
    using replace_bytes_prefix [of "decimal s @ ''-'' @ decimal e"] by simp
  have r2: "replace_first ''bytes='' [] (''bytes='' @ decimal s @ ''-'') = decimal s @ [CHR ''-'']"
    using replace_bytes_prefix [of "decimal s @ ''-''"] by simp
  show "range_parts (''bytes='' @ decimal s @ ''-'' @ decimal e) = [decimal s, decimal e]"
    unfolding range_parts_def r1 a b ..
  show "range_parts (''bytes='' @ decimal s @ ''-'') = [decimal s, []]"
    unfolding range_parts_def r2 c by simp
qed

lemma canonical_range_header:
  "range_start (''bytes='' @ decimal s @ ''-'' @ decimal e) = Some (int s)"
  "range_end (''bytes='' @ decimal s @ ''-'' @ decimal e) fileSize = Some (int e)"
  "range_start (''bytes='' @ decimal s @ ''-'') = Some (int s)"
  "range_end (''bytes='' @ decimal s @ ''-'') fileSize = Some (fileSize - 1)"
proof -
  have ne: "decimal e \<noteq> []" using decimal_digits [of e] by blast
  show "range_start (''bytes='' @ decimal s @ ''-'' @ decimal e) = Some (int s)"
    unfolding range_start_def canonical_range_parts by (simp add: parseInt_decimal)
  show "range_end (''bytes='' @ decimal s @ ''-'' @ decimal e) fileSize = Some (int e)"
    unfolding range_end_def canonical_range_parts
    using ne by (simp add: at_index_def truthy_def parseInt_decimal)
  show "range_start (''bytes='' @ decimal s @ ''-'') = Some (int s)"
    unfolding range_start_def canonical_range_parts by (simp add: parseInt_decimal)
  show "range_end (''bytes='' @ decimal s @ ''-'') fileSize = Some (fileSize - 1)"
    unfolding range_end_def canonical_range_parts
    by (simp add: at_index_def truthy_def)
qed

lemma canonical_header_nonempty: "''bytes='' @ r \<noteq> []"
  by simp

lemma canonical_range_header_int:
  assumes "0 \<le> s" and "0 \<le> e"
  shows "range_start (''bytes='' @ show_int s @ ''-'' @ show_int e) = Some s"
    and "range_end (''bytes='' @ show_int s @ ''-'' @ show_int e) fileSize = Some e"
proof -
  have s: "show_int s = decimal (nat s)" and e: "show_int e = decimal (nat e)"
    using assms by (simp_all add: show_int_def)
  show "range_start (''bytes='' @ show_int s @ ''-'' @ show_int e) = Some s"
    unfolding s e canonical_range_header(1) using assms(1) by simp
  show "range_end (''bytes='' @ show_int s @ ''-'' @ show_int e) fileSize = Some e"
    unfolding s e canonical_range_header(2) using assms(2) by simp
qed

lemma canonical_open_range_header_int:
  assumes "0 \<le> s"
  shows "range_start (''bytes='' @ show_int s @ ''-'') = Some s"
    and "range_end (''bytes='' @ show_int s @ ''-'') fileSize = Some (fileSize - 1)"
proof -
  have s: "show_int s = decimal (nat s)"
    using assms by (simp add: show_int_def)
  show "range_start (''bytes='' @ show_int s @ ''-'') = Some s"
    unfolding s canonical_range_header(3) using assms by simp
  show "range_end (''bytes='' @ show_int s @ ''-'') fileSize = Some (fileSize - 1)"
    unfolding s by (rule canonical_range_header(4))
qed

lemma serve_range_beyond:
  assumes "range_start rangeHeader = Some s" and "fileSize \<le> s"
  shows "serve_range filePath ent fileSize mimeType rangeHeader =
           ([], Inr (send 416 (''Requested range not satisfiable\<newline>'' @ show_int s @
                               '' >= '' @ show_int fileSize)))"
  using assms by (simp add: serve_range_def js_ge_def show_number_def)

lemma serve_range_valid:
  assumes "int (length bytes) \<le> MAX_SAFE_INTEGER"
    and "range_start rangeHeader = Some s"
    and "range_end rangeHeader (int (length bytes)) = Some e"
    and "0 \<le> s" and "s \<le> e" and "e < int (length bytes)"
  shows "serve_range filePath (File bytes) (int (length bytes)) mimeType rangeHeader =
           ([CreateReadStream filePath (Some (Some s, Some e))],
            Inr \<lparr>status = 206,
                 headers =
                   [(''Content-Range'',
                       ''bytes '' @ show_int s @ ''-'' @ show_int e @ ''/'' @
                       show_int (int (length bytes))),
                    (''Accept-Ranges'', ''bytes''),
                    (''Content-Length'', show_int (e - s + 1)),
                    (''Content-Type'', mimeType)],
                 body = Pipe (take (nat (e - s + 1)) (drop (nat s) bytes))\<rparr>)"
proof -
  have stream: "createReadStream (File bytes) (Some s) (Some e) =
                  Inr (take (nat (e - s + 1)) (drop (nat s) bytes))"
    using assms by simp
  show ?thesis
    using assms(2-6) stream
    by (simp add: serve_range_def js_ge_def range_head_def chunksize_def show_number_def)
qed

lemma uploads_get_range:
  assumes "fs [fname] = Some ent"
    and "array_includes mediaMimeTypes (getMimeType fname)"
    and "rangeHeader \<noteq> []"
  shows "uploads_get fs fname (Some rangeHeader) =
           serve_range [fname] ent (int (stat_size ent)) (getMimeType fname) rangeHeader"
  using assms by (simp add: uploads_get_def)

text \<open>
  C3. On an existing media file (of a size that is a safe integer), every range request
  whose parsed start offset \<open>s\<close> is at least the file size is answered 416, and the handler
  performs no effect at all: no read stream is created. The body is the message
  \<^verbatim>\<open>Requested range not satisfiable\<close>, a line break, the start offset as the program
  prints it, \<^verbatim>\<open>>=\<close> and the file size; the printed start offset is \<open>s\<close> in decimal digits
  when \<open>s\<close> is a safe integer, and then the header \<^verbatim>\<open>bytes=s-\<close> is such a request.
\<close>

theorem start_beyond_file_416:
  assumes "fs [fname] = Some (File bytes)"
    and "array_includes mediaMimeTypes (getMimeType fname)"
    and "int (length bytes) \<le> MAX_SAFE_INTEGER"
    and "int (length bytes) \<le> s"
  shows "(\<forall>rangeHeader. rangeHeader \<noteq> [] \<and> range_start rangeHeader = Some s \<longrightarrow>
            fst (uploads_get fs fname (Some rangeHeader)) = [] \<and>
            (\<exists>resp t.
               snd (uploads_get fs fname (Some rangeHeader)) = Inr resp \<and>
               status resp = 416 \<and>
               body resp =
                 Send (''Requested range not satisfiable\<newline>'' @ t @ '' >= '' @
                       show_int (int (length bytes))) \<and>
               (s \<le> MAX_SAFE_INTEGER \<longrightarrow> t = show_int s))) \<and>
         (s \<le> MAX_SAFE_INTEGER \<longrightarrow> range_start (''bytes='' @ show_int s @ ''-'') = Some s)"
proof -
  have g: "uploads_get fs fname (Some rangeHeader) =
              ([], Inr (send 416 (''Requested range not satisfiable\<newline>'' @ show_int s @
                                  '' >= '' @ show_int (int (length bytes)))))"
    if "rangeHeader \<noteq> []" and "range_start rangeHeader = Some s" for rangeHeader
    using uploads_get_range [of fs fname "File bytes" rangeHeader] assms(1,2) that(1)
      serve_range_beyond [OF that(2) assms(4)]
    by simp
  have a: "\<forall>rangeHeader. rangeHeader \<noteq> [] \<and> range_start rangeHeader = Some s \<longrightarrow>
            fst (uploads_get fs fname (Some rangeHeader)) = [] \<and>
            (\<exists>resp t.
               snd (uploads_get fs fname (Some rangeHeader)) = Inr resp \<and>
               status resp = 416 \<and>
               body resp =
                 Send (''Requested range not satisfiable\<newline>'' @ t @ '' >= '' @
                       show_int (int (length bytes))) \<and>
               (s \<le> MAX_SAFE_INTEGER \<longrightarrow> t = show_int s))"
  proof (intro allI impI, elim conjE)
    fix rangeHeader
    assume "rangeHeader \<noteq> []" and "range_start rangeHeader = Some s"
    then have e: "uploads_get fs fname (Some rangeHeader) =
              ([], Inr (send 416 (''Requested range not satisfiable\<newline>'' @ show_int s @
                                  '' >= '' @ show_int (int (length bytes)))))"
      by (rule g)
    have "\<exists>resp t.
               snd (uploads_get fs fname (Some rangeHeader)) = Inr resp \<and>
               status resp = 416 \<and>
               body resp =
                 Send (''Requested range not satisfiable\<newline>'' @ t @ '' >= '' @
                       show_int (int (length bytes))) \<and>
               (s \<le> MAX_SAFE_INTEGER \<longrightarrow> t = show_int s)"
    proof (rule exI [where x = "send 416 (''Requested range not satisfiable\<newline>'' @ show_int s @
                                  '' >= '' @ show_int (int (length bytes)))"],
           rule exI [where x = "show_int s"], intro conjI)
      show "snd (uploads_get fs fname (Some rangeHeader)) =
              Inr (send 416 (''Requested range not satisfiable\<newline>'' @ show_int s @
                             '' >= '' @ show_int (int (length bytes))))"
        unfolding e by simp
    qed (simp_all add: send_def)
    moreover have "fst (uploads_get fs fname (Some rangeHeader)) = []"
      unfolding e by simp
    ultimately show "fst (uploads_get fs fname (Some rangeHeader)) = [] \<and>
            (\<exists>resp t.
               snd (uploads_get fs fname (Some rangeHeader)) = Inr resp \<and>
               status resp = 416 \<and>
               body resp =
                 Send (''Requested range not satisfiable\<newline>'' @ t @ '' >= '' @
                       show_int (int (length bytes))) \<and>
               (s \<le> MAX_SAFE_INTEGER \<longrightarrow> t = show_int s))"
      by (rule conjI [rotated])
  qed
  have "0 \<le> s" using assms(4) by simp
  then have b: "range_start (''bytes='' @ show_int s @ ''-'') = Some s"
    by (rule canonical_open_range_header_int(1))
  show ?thesis
  proof (intro conjI impI)
    show "range_start (''bytes='' @ show_int s @ ''-'') = Some s" by (rule b)
  qed (rule a)
qed

theorem start_beyond_file_416_witness:
  "fst (uploads_get (Map.empty([''v.mp4''] \<mapsto> File ''0123456789'')) ''v.mp4''
          (Some ''bytes=10-'')) = [] \<and>
   (\<exists>resp. snd (uploads_get (Map.empty([''v.mp4''] \<mapsto> File ''0123456789'')) ''v.mp4''
                    (Some ''bytes=10-'')) = Inr resp \<and>
           status resp = 416 \<and>
           body resp = Send ''Requested range not satisfiable\<newline>10 >= 10'')"
proof -
  have "\<forall>rangeHeader. rangeHeader \<noteq> [] \<and> range_start rangeHeader = Some 10 \<longrightarrow>
            fst (uploads_get (Map.empty([''v.mp4''] \<mapsto> File ''0123456789'')) ''v.mp4''
                   (Some rangeHeader)) = [] \<and>
            (\<exists>resp t.
               snd (uploads_get (Map.empty([''v.mp4''] \<mapsto> File ''0123456789'')) ''v.mp4''
                      (Some rangeHeader)) = Inr resp \<and>
               status resp = 416 \<and>
               body resp =
                 Send (''Requested range not satisfiable\<newline>'' @ t @ '' >= '' @
                       show_int (int (length ''0123456789''))) \<and>
               (10 \<le> MAX_SAFE_INTEGER \<longrightarrow> t = show_int 10))"
    by (rule start_beyond_file_416 [of "Map.empty([''v.mp4''] \<mapsto> File ''0123456789'')"
          "''v.mp4''" "''0123456789''" 10, THEN conjunct1])
       (simp_all add: mime_defs MAX_SAFE_INTEGER_def)
  then have "''bytes=10-'' \<noteq> [] \<and> range_start ''bytes=10-'' = Some 10 \<longrightarrow>
            fst (uploads_get (Map.empty([''v.mp4''] \<mapsto> File ''0123456789'')) ''v.mp4''
                   (Some ''bytes=10-'')) = [] \<and>
            (\<exists>resp t.
               snd (uploads_get (Map.empty([''v.mp4''] \<mapsto> File ''0123456789'')) ''v.mp4''
                      (Some ''bytes=10-'')) = Inr resp \<and>
               status resp = 416 \<and>
               body resp =
                 Send (''Requested range not satisfiable\<newline>'' @ t @ '' >= '' @
                       show_int (int (length ''0123456789''))) \<and>
               (10 \<le> MAX_SAFE_INTEGER \<longrightarrow> t = show_int 10))"
    by (rule spec)
  then show ?thesis
    by (simp add: js_defs MAX_SAFE_INTEGER_def show_int_def decimal.simps)
qed

text \<open>
  C1, as the claim states it, fails: a request \<^verbatim>\<open>Range: bytes=0-99\<close> against a 50-byte media
  file is answered 206, with a read stream opened on the file.
\<close>

theorem range_end_beyond_file_counterexample:
  "uploads_get
     (Map.empty([''v.mp4''] \<mapsto> File ''01234567890123456789012345678901234567890123456789''))
     ''v.mp4'' (Some ''bytes=0-99'') =
   ([CreateReadStream [''v.mp4''] (Some (Some 0, Some 99))],
    Inr \<lparr>status = 206,
         headers = [(''Content-Range'', ''bytes 0-99/50''), (''Accept-Ranges'', ''bytes''),
                    (''Content-Length'', ''100''), (''Content-Type'', ''video/mp4'')],
         body = Pipe ''01234567890123456789012345678901234567890123456789''\<rparr>)"
  by (simp add: uploads_get_def serve_range_def js_defs mime_defs range_head_def chunksize_def
      show_number_def show_int_def decimal.simps MAX_SAFE_INTEGER_def)

text \<open>
  C1, amended. On an existing media file a range request is answered 416 exactly when the
  parsed start offset is a number that is at least the file size, and then no effect is
  performed. A request whose start lies inside the file and whose end lies at or beyond the
  last byte is answered 206, and its body is the file from the start offset on.
\<close>

theorem range_416_iff_start_beyond_file:
  assumes "fs [fname] = Some (File bytes)"
    and "array_includes mediaMimeTypes (getMimeType fname)"
    and "rangeHeader \<noteq> []"
  shows "((\<exists>resp. snd (uploads_get fs fname (Some rangeHeader)) = Inr resp \<and> status resp = 416)
            \<longleftrightarrow> js_ge (range_start rangeHeader) (int (length bytes))) \<and>
         (js_ge (range_start rangeHeader) (int (length bytes))
            \<longrightarrow> fst (uploads_get fs fname (Some rangeHeader)) = []) \<and>
         (\<forall>s e. range_start rangeHeader = Some s \<and>
                range_end rangeHeader (int (length bytes)) = Some e \<and>
                0 \<le> s \<and> s < int (length bytes) \<and> int (length bytes) - 1 \<le> e \<and>
                e \<le> MAX_SAFE_INTEGER
            \<longrightarrow> (\<exists>resp. snd (uploads_get fs fname (Some rangeHeader)) = Inr resp \<and>
                        status resp = 206 \<and> body resp = Pipe (drop (nat s) bytes)))"
proof -
  let ?r = "uploads_get fs fname (Some rangeHeader)"
  let ?n = "int (length bytes)"
  have r: "?r = serve_range [fname] (File bytes) ?n (getMimeType fname) rangeHeader"
    using assms by (simp add: uploads_get_def)
  have a: "(\<exists>resp. snd ?r = Inr resp \<and> status resp = 416) \<longleftrightarrow>
           js_ge (range_start rangeHeader) ?n"
    unfolding r
    by (auto simp add: serve_range_def send_def Let_def split: sum.splits js_error.splits)
  have b: "js_ge (range_start rangeHeader) ?n \<longrightarrow> fst ?r = []"
    unfolding r by (simp add: serve_range_def)
  have c: "\<forall>s e. range_start rangeHeader = Some s \<and> range_end rangeHeader ?n = Some e \<and>
                0 \<le> s \<and> s < ?n \<and> ?n - 1 \<le> e \<and> e \<le> MAX_SAFE_INTEGER
            \<longrightarrow> (\<exists>resp. snd ?r = Inr resp \<and> status resp = 206 \<and>
                        body resp = Pipe (drop (nat s) bytes))"
    unfolding r by (auto simp add: serve_range_def js_ge_def Let_def)
  from a b c show ?thesis by blast
qed

theorem range_416_iff_start_beyond_file_witness:
  "((\<exists>resp. snd (uploads_get (Map.empty([''v.mp4''] \<mapsto> File ''0123456789'')) ''v.mp4''
                    (Some ''bytes=12-15'')) = Inr resp \<and> status resp = 416) \<and>
    fst (uploads_get (Map.empty([''v.mp4''] \<mapsto> File ''0123456789'')) ''v.mp4''
           (Some ''bytes=12-15'')) = []) \<and>
   (\<exists>resp. snd (uploads_get (Map.empty([''v.mp4''] \<mapsto> File ''0123456789'')) ''v.mp4''
                    (Some ''bytes=4-20'')) = Inr resp \<and> status resp = 206 \<and>
           body resp = Pipe ''456789'')"
  using range_416_iff_start_beyond_file [of "Map.empty([''v.mp4''] \<mapsto> File ''0123456789'')"
      "''v.mp4''" "''0123456789''" "''bytes=12-15''"]
    range_416_iff_start_beyond_file [of "Map.empty([''v.mp4''] \<mapsto> File ''0123456789'')"
      "''v.mp4''" "''0123456789''" "''bytes=4-20''"]
  by (simp add: js_defs mime_defs MAX_SAFE_INTEGER_def)

text \<open>
  C4. For a valid range \<open>0 \<le> s \<le> e < fileSize\<close> on an existing media file (of a size that is
  a safe integer), every request whose header is read as \<open>s\<close> and \<open>e\<close> is answered 206 with
  the four headers, and the body is the byte window from \<open>s\<close> to \<open>e\<close>: it has \<open>e - s + 1\<close>
  bytes, the \<open>i\<close>-th being byte \<open>s + i\<close> of the file. The header \<^verbatim>\<open>bytes=s-e\<close> is read as
  \<open>s\<close> and \<open>e\<close>, and the header \<^verbatim>\<open>bytes=s-\<close>, which has no end, as \<open>s\<close> and \<open>fileSize - 1\<close>.
\<close>

theorem valid_range_206:
  assumes "fs [fname] = Some (File bytes)"
    and "array_includes mediaMimeTypes (getMimeType fname)"
    and "int (length bytes) \<le> MAX_SAFE_INTEGER"
    and "0 \<le> s" and "s \<le> e" and "e < int (length bytes)"
  shows "(\<forall>rangeHeader.
            rangeHeader \<noteq> [] \<and> range_start rangeHeader = Some s \<and>
            range_end rangeHeader (int (length bytes)) = Some e \<longrightarrow>
            uploads_get fs fname (Some rangeHeader) =
              ([CreateReadStream [fname] (Some (Some s, Some e))],
               Inr \<lparr>status = 206,
                    headers =
                      [(''Content-Range'',
                          ''bytes '' @ show_int s @ ''-'' @ show_int e @ ''/'' @
                          show_int (int (length bytes))),
                       (''Accept-Ranges'', ''bytes''),
                       (''Content-Length'', show_int (e - s + 1)),
                       (''Content-Type'', getMimeType fname)],
                    body = Pipe (take (nat (e - s + 1)) (drop (nat s) bytes))\<rparr>)) \<and>
         length (take (nat (e - s + 1)) (drop (nat s) bytes)) = nat (e - s + 1) \<and>
         (\<forall>i < nat (e - s + 1).
            take (nat (e - s + 1)) (drop (nat s) bytes) ! i = bytes ! (nat s + i)) \<and>
         range_start (''bytes='' @ show_int s @ ''-'' @ show_int e) = Some s \<and>
         range_end (''bytes='' @ show_int s @ ''-'' @ show_int e) (int (length bytes)) = Some e \<and>
         range_start (''bytes='' @ show_int s @ ''-'') = Some s \<and>
         range_end (''bytes='' @ show_int s @ ''-'') (int (length bytes)) =
           Some (int (length bytes) - 1)"
proof -
  have resp: "uploads_get fs fname (Some rangeHeader) =
              ([CreateReadStream [fname] (Some (Some s, Some e))],
               Inr \<lparr>status = 206,
                    headers =
                      [(''Content-Range'',
                          ''bytes '' @ show_int s @ ''-'' @ show_int e @ ''/'' @
                          show_int (int (length bytes))),
                       (''Accept-Ranges'', ''bytes''),
                       (''Content-Length'', show_int (e - s + 1)),
                       (''Content-Type'', getMimeType fname)],
                    body = Pipe (take (nat (e - s + 1)) (drop (nat s) bytes))\<rparr>)"
    if "rangeHeader \<noteq> []" and "range_start rangeHeader = Some s"
      and "range_end rangeHeader (int (length bytes)) = Some e" for rangeHeader
    using uploads_get_range [of fs fname "File bytes" rangeHeader] assms(1,2) that(1)
      serve_range_valid [OF assms(3) that(2,3) assms(4,5,6)]
    by simp
  have len: "length (take (nat (e - s + 1)) (drop (nat s) bytes)) = nat (e - s + 1)"
    using assms(4-6) by simp
  have window: "\<forall>i < nat (e - s + 1).
                  take (nat (e - s + 1)) (drop (nat s) bytes) ! i = bytes ! (nat s + i)"
    using assms(4-6) by simp
  have e0: "0 \<le> e" using assms(4,5) by simp
  note c = canonical_range_header_int [OF assms(4) e0]
    canonical_open_range_header_int [OF assms(4)]
  have all: "\<forall>rangeHeader.
            rangeHeader \<noteq> [] \<and> range_start rangeHeader = Some s \<and>
            range_end rangeHeader (int (length bytes)) = Some e \<longrightarrow>
            uploads_get fs fname (Some rangeHeader) =
              ([CreateReadStream [fname] (Some (Some s, Some e))],
               Inr \<lparr>status = 206,
                    headers =
                      [(''Content-Range'',
                          ''bytes '' @ show_int s @ ''-'' @ show_int e @ ''/'' @
                          show_int (int (length bytes))),
                       (''Accept-Ranges'', ''bytes''),
                       (''Content-Length'', show_int (e - s + 1)),
                       (''Content-Type'', getMimeType fname)],
                    body = Pipe (take (nat (e - s + 1)) (drop (nat s) bytes))\<rparr>)"
  proof (intro allI impI, elim conjE)
    fix rangeHeader
    assume "rangeHeader \<noteq> []" and "range_start rangeHeader = Some s"
      and "range_end rangeHeader (int (length bytes)) = Some e"
    then show "uploads_get fs fname (Some rangeHeader) =
              ([CreateReadStream [fname] (Some (Some s, Some e))],
               Inr \<lparr>status = 206,
                    headers =
                      [(''Content-Range'',
                          ''bytes '' @ show_int s @ ''-'' @ show_int e @ ''/'' @
                          show_int (int (length bytes))),
                       (''Accept-Ranges'', ''bytes''),
                       (''Content-Length'', show_int (e - s + 1)),
                       (''Content-Type'', getMimeType fname)],
                    body = Pipe (take (nat (e - s + 1)) (drop (nat s) bytes))\<rparr>)"
      by (rule resp)
  qed
  show ?thesis
    by (intro conjI) (rule all len window c)+
qed

theorem valid_range_206_witness:
  "uploads_get (Map.empty([''v.mp4''] \<mapsto> File ''0123456789'')) ''v.mp4'' (Some ''bytes=2-5'') =
     ([CreateReadStream [''v.mp4''] (Some (Some 2, Some 5))],
      Inr \<lparr>status = 206,
           headers = [(''Content-Range'', ''bytes 2-5/10''), (''Accept-Ranges'', ''bytes''),
                      (''Content-Length'', ''4''), (''Content-Type'', ''video/mp4'')],
           body = Pipe ''2345''\<rparr>)"
proof -
  have "\<forall>rangeHeader.
            rangeHeader \<noteq> [] \<and> range_start rangeHeader = Some 2 \<and>
            range_end rangeHeader (int (length ''0123456789'')) = Some 5 \<longrightarrow>
            uploads_get (Map.empty([''v.mp4''] \<mapsto> File ''0123456789'')) ''v.mp4''
              (Some rangeHeader) =
              ([CreateReadStream [''v.mp4''] (Some (Some 2, Some 5))],
               Inr \<lparr>status = 206,
                    headers =
                      [(''Content-Range'',
                          ''bytes '' @ show_int 2 @ ''-'' @ show_int 5 @ ''/'' @
                          show_int (int (length ''0123456789''))),
                       (''Accept-Ranges'', ''bytes''),
                       (''Content-Length'', show_int (5 - 2 + 1)),
                       (''Content-Type'', getMimeType ''v.mp4'')],
                    body = Pipe (take (nat (5 - 2 + 1)) (drop (nat 2) ''0123456789''))\<rparr>)"
    by (rule valid_range_206 [of "Map.empty([''v.mp4''] \<mapsto> File ''0123456789'')" "''v.mp4''"
          "''0123456789''" 2 5, THEN conjunct1])
       (simp_all add: mime_defs MAX_SAFE_INTEGER_def)
  then have "''bytes=2-5'' \<noteq> [] \<and> range_start ''bytes=2-5'' = Some 2 \<and>
            range_end ''bytes=2-5'' (int (length ''0123456789'')) = Some 5 \<longrightarrow>
            uploads_get (Map.empty([''v.mp4''] \<mapsto> File ''0123456789'')) ''v.mp4''
              (Some ''bytes=2-5'') =
              ([CreateReadStream [''v.mp4''] (Some (Some 2, Some 5))],
               Inr \<lparr>status = 206,
                    headers =
                      [(''Content-Range'',
                          ''bytes '' @ show_int 2 @ ''-'' @ show_int 5 @ ''/'' @
                          show_int (int (length ''0123456789''))),
                       (''Accept-Ranges'', ''bytes''),
                       (''Content-Length'', show_int (5 - 2 + 1)),
                       (''Content-Type'', getMimeType ''v.mp4'')],
                    body = Pipe (take (nat (5 - 2 + 1)) (drop (nat 2) ''0123456789''))\<rparr>)"
    by (rule spec)
  then show ?thesis
    by (simp add: js_defs mime_defs show_int_def decimal.simps)
qed

subsection \<open>The transcode job\<close>

text \<open>The engine writes to no path but the playlists and segments of its command.\<close>

lemma engine_put_other: "p \<noteq> q \<Longrightarrow> engine_put fs q bytes p = fs p"
  by (simp add: engine_put_def writeFileSync_def)

lemma write_segments_other:
  "(\<And>j. segment_path pattern j \<noteq> p) \<Longrightarrow> write_segments pattern i segs fs p = fs p"
proof (induction segs arbitrary: i fs)
  case Nil
  then show ?case by simp
next
  case (Cons seg segs)
  have "segment_path pattern i \<noteq> p" using Cons.prems by blast
  then have "engine_put fs (segment_path pattern i) seg p = fs p"
    using engine_put_other by metis
  with Cons show ?case by simp
qed

lemma write_rendition_other:
  assumes "target out \<noteq> p" and "\<And>j. segment_path (hls_segment_filename out) j \<noteq> p"
  shows "write_rendition out files fs p = fs p"
proof -
  have "(case playlist files of None \<Rightarrow> fs | Some text \<Rightarrow> engine_put fs (target out) text) p = fs p"
    using assms(1) by (cases "playlist files") (simp_all add: engine_put_other)
  then show ?thesis
    using assms(2) by (simp add: write_rendition_def write_segments_other)
qed

lemma write_renditions_other:
  "(\<And>out. out \<in> set outs \<Longrightarrow>
      target out \<noteq> p \<and> (\<forall>j. segment_path (hls_segment_filename out) j \<noteq> p)) \<Longrightarrow>
   write_renditions outs rs fs p = fs p"
proof (induction outs rs fs rule: write_renditions.induct)
  case (1 out outs files rest fs)
  have "write_rendition out files fs p = fs p"
    using "1.prems" [of out] by (simp add: write_rendition_other)
  moreover have "write_renditions outs rest (write_rendition out files fs) p =
                 write_rendition out files fs p"
    using "1.prems" by (intro "1.IH") simp
  ultimately show ?case by simp
qed simp_all

lemma level_paths_not_master:
  assumes "out \<in> set (outputs (ffmpegCommand opts inputPath [d]))"
  shows "target out \<noteq> [d, ''master.m3u8''] \<and>
         (\<forall>j. segment_path (hls_segment_filename out) j \<noteq> [d, ''master.m3u8''])"
  using assms
  by (auto simp add: ffmpegCommand_def qualityLevels_def level_output_def segment_path_def)

lemma level_paths_length:
  assumes "out \<in> set (outputs (ffmpegCommand opts inputPath [d]))" and "length p \<noteq> 2"
  shows "target out \<noteq> p \<and> (\<forall>j. segment_path (hls_segment_filename out) j \<noteq> p)"
  using assms
  by (auto simp add: ffmpegCommand_def qualityLevels_def level_output_def segment_path_def)

lemma ffmpeg_run_master:
  "ffmpeg_run (ffmpegCommand opts inputPath [d]) eo fs [d, ''master.m3u8''] =
   fs [d, ''master.m3u8'']"
  unfolding ffmpeg_run_def
  by (rule write_renditions_other) (rule level_paths_not_master)

lemma ffmpeg_run_other_length:
  "length p \<noteq> 2 \<Longrightarrow> ffmpeg_run (ffmpegCommand opts inputPath [d]) eo fs p = fs p"
  unfolding ffmpeg_run_def
  by (rule write_renditions_other) (rule level_paths_length)

lemma hls_convert_master_before_write:
  "ffmpeg_run (ffmpegCommand opts inputPath [d]) eo
     (if \<not> existsSync fs [d] then mkdirSync env fs [d] else fs) [d, ''master.m3u8''] =
   fs [d, ''master.m3u8'']"
  by (simp add: ffmpeg_run_master mkdirSync_def)

lemma hls_convert_unfold:
  "hls_convert env eo opts fs inputPath fname =
     (case engine_error eo of
        Some msg \<Rightarrow>
          ((if \<not> existsSync fs [parse_name fname] then [MkdirSync [parse_name fname]] else []) @
           [FfmpegRun (ffmpegCommand opts inputPath [parse_name fname])],
           ffmpeg_run (ffmpegCommand opts inputPath [parse_name fname]) eo
             (if \<not> existsSync fs [parse_name fname] then mkdirSync env fs [parse_name fname]
              else fs),
           Inl (FfmpegError msg))
      | None \<Rightarrow>
          (case writeFileSync
                  (ffmpeg_run (ffmpegCommand opts inputPath [parse_name fname]) eo
                     (if \<not> existsSync fs [parse_name fname]
                      then mkdirSync env fs [parse_name fname] else fs))
                  [parse_name fname, ''master.m3u8''] masterPlaylist of
             Inl e \<Rightarrow>
               ((if \<not> existsSync fs [parse_name fname] then [MkdirSync [parse_name fname]]
                 else []) @
                [FfmpegRun (ffmpegCommand opts inputPath [parse_name fname])],
                ffmpeg_run (ffmpegCommand opts inputPath [parse_name fname]) eo
                  (if \<not> existsSync fs [parse_name fname]
                   then mkdirSync env fs [parse_name fname] else fs),
                Inl e)
           | Inr fs3 \<Rightarrow>
               ((if \<not> existsSync fs [parse_name fname] then [MkdirSync [parse_name fname]]
                 else []) @
                [FfmpegRun (ffmpegCommand opts inputPath [parse_name fname]),
                 WriteFileSync [parse_name fname, ''master.m3u8''] masterPlaylist],
                fs3, Inr ())))"
  by (simp add: hls_convert_def Let_def split: option.splits sum.splits)

lemma hls_convert_failed:
  assumes "snd (snd (hls_convert env eo opts fs inputPath fname)) = Inl e"
  shows "fst (hls_convert env eo opts fs inputPath fname) =
           (if \<not> existsSync fs [parse_name fname] then [MkdirSync [parse_name fname]] else []) @
           [FfmpegRun (ffmpegCommand opts inputPath [parse_name fname])] \<and>
         fst (snd (hls_convert env eo opts fs inputPath fname)) [parse_name fname, ''master.m3u8''] =
           fs [parse_name fname, ''master.m3u8'']"
proof -
  define fs2 where "fs2 = ffmpeg_run (ffmpegCommand opts inputPath [parse_name fname]) eo
    (if \<not> existsSync fs [parse_name fname] then mkdirSync env fs [parse_name fname] else fs)"
  have m: "fs2 [parse_name fname, ''master.m3u8''] = fs [parse_name fname, ''master.m3u8'']"
    unfolding fs2_def by (rule hls_convert_master_before_write)
  show ?thesis
    using assms m unfolding hls_convert_unfold fs2_def [symmetric]
    by (auto split: option.splits sum.splits)
qed

lemma hls_convert_published:
  assumes "snd (snd (hls_convert env eo opts fs inputPath fname)) = Inr u"
  shows "engine_error eo = None \<and>
         fst (hls_convert env eo opts fs inputPath fname) =
           (if \<not> existsSync fs [parse_name fname] then [MkdirSync [parse_name fname]] else []) @
           [FfmpegRun (ffmpegCommand opts inputPath [parse_name fname]),
            WriteFileSync [parse_name fname, ''master.m3u8''] masterPlaylist] \<and>
         fst (snd (hls_convert env eo opts fs inputPath fname)) [parse_name fname, ''master.m3u8''] =
           Some (File masterPlaylist)"
proof -
  define fs2 where "fs2 = ffmpeg_run (ffmpegCommand opts inputPath [parse_name fname]) eo
    (if \<not> existsSync fs [parse_name fname] then mkdirSync env fs [parse_name fname] else fs)"
  have w: "writeFileSync fs2 p bytes = Inr fs3 \<Longrightarrow> fs3 p = Some (File bytes)" for p bytes fs3
    by (auto simp add: writeFileSync_def split: if_splits)
  show ?thesis
    using assms w unfolding hls_convert_unfold fs2_def [symmetric]
    by (auto split: option.splits sum.splits)
qed


lemma hls_convert_succeeds:
  assumes "engine_error eo = None"
    and "fs [parse_name fname] = None \<or> is_dir fs [parse_name fname]"
    and "\<not> is_dir fs [parse_name fname, ''master.m3u8'']"
  shows "snd (snd (hls_convert env eo opts fs inputPath fname)) = Inr ()"
proof -
  let ?d = "parse_name fname"
  let ?fs1 = "if \<not> existsSync fs [?d] then mkdirSync env fs [?d] else fs"
  let ?fs2 = "ffmpeg_run (ffmpegCommand opts inputPath [?d]) eo ?fs1"
  have "is_dir ?fs1 [?d]"
    using assms(2) by (auto simp add: existsSync_def mkdirSync_def is_dir_def)
  then have dir: "is_dir ?fs2 [?d]"
    by (simp add: is_dir_def ffmpeg_run_other_length)
  have "?fs2 [?d, ''master.m3u8''] = fs [?d, ''master.m3u8'']"
    by (rule hls_convert_master_before_write)
  then have "\<not> is_dir ?fs2 [?d, ''master.m3u8'']"
    using assms(3) by (simp add: is_dir_def)
  with dir have "\<exists>fs3. writeFileSync ?fs2 [?d, ''master.m3u8''] masterPlaylist = Inr fs3"
    by (simp add: writeFileSync_def)
  then show ?thesis
    using assms(1) by (auto simp add: hls_convert_def Let_def)
qed

lemma upload_handler_media:
  assumes "array_includes mediaMimeTypes (mimetype f)"
  shows "fst (upload_handler env eo fs (Some f)) =
           fst (hls_convert env eo upload_options fs [filename f] (filename f)) \<and>
         fst (snd (upload_handler env eo fs (Some f))) =
           fst (snd (hls_convert env eo upload_options fs [filename f] (filename f))) \<and>
         status (snd (snd (upload_handler env eo fs (Some f)))) =
           (case snd (snd (hls_convert env eo upload_options fs [filename f] (filename f))) of
              Inl e \<Rightarrow> 500 | Inr u \<Rightarrow> 200)"
  using assms
  by (simp add: upload_handler_def Let_def send_json_def split: prod.splits sum.splits)

lemma engine_runs_hls_convert:
  "engine_runs (fst (hls_convert env eo opts fs inputPath fname)) = 1"
  by (simp add: hls_convert_unfold engine_runs_def split: option.splits sum.splits)


lemma hls_convert_frame:
  assumes "length p \<noteq> 2" and "p \<noteq> [parse_name fname]"
  shows "fst (snd (hls_convert env eo opts fs inputPath fname)) p = fs p"
proof -
  define fs2 where "fs2 = ffmpeg_run (ffmpegCommand opts inputPath [parse_name fname]) eo
    (if \<not> existsSync fs [parse_name fname] then mkdirSync env fs [parse_name fname] else fs)"
  have a: "fs2 p = fs p"
    unfolding fs2_def using assms by (simp add: ffmpeg_run_other_length mkdirSync_def)
  have w: "writeFileSync fs2 [parse_name fname, ''master.m3u8''] bytes = Inr fs3 \<Longrightarrow> fs3 p = fs2 p"
    for bytes fs3
    using assms(1) by (auto simp add: writeFileSync_def split: if_splits)
  show ?thesis
    using a w unfolding hls_convert_unfold fs2_def [symmetric]
    by (auto split: option.splits sum.splits)
qed

lemma post_upload_accepted:
  assumes "fileFilter part" and "is_dir fs []" and "\<not> is_dir fs [storage_filename part]"
  shows "post_upload env eo fs (Some part) =
           upload_handler env eo (fs([storage_filename part] \<mapsto> File (content part)))
             (Some \<lparr>originalname = originalname part, mimetype = mimetype part,
                    content = content part, filename = storage_filename part\<rparr>)"
  using assms by (simp add: post_upload_def multer_single_def writeFileSync_def)

lemmas example_defs = example_env_def engine_ended_def engine_failed_def example_video_def
  example_video_again_def

lemmas name_defs = storage_filename_def sanitizeFilename_def safe_char_def code_unit_def
  parse_name_def extname_def basename_def

lemma example_first_upload:
  "post_upload example_env engine_ended Map.empty (Some example_video) =
     upload_handler example_env engine_ended (Map.empty([''my_video.mp4''] \<mapsto> File ''VIDEO-1''))
       (Some \<lparr>originalname = ''my video.mp4'', mimetype = ''video/mp4'', content = ''VIDEO-1'',
              filename = ''my_video.mp4''\<rparr>)"
proof -
  have "storage_filename example_video = ''my_video.mp4''"
    by (simp add: example_video_def name_defs)
  moreover have "fileFilter example_video"
    by (simp add: example_video_def fileFilter_def allowedMimeTypes_def mediaMimeTypes_def
        array_includes_def)
  ultimately show ?thesis
    using post_upload_accepted [of example_video Map.empty example_env engine_ended]
    by (simp add: is_dir_def example_video_def)
qed

lemma example_names:
  "storage_filename example_video = ''my_video.mp4''"
  "storage_filename example_video_again = ''my_video.mp4''"
  "parse_name ''my_video.mp4'' = ''my_video''"
  "fileFilter example_video" "fileFilter example_video_again"
  by (simp_all add: example_defs name_defs fileFilter_def allowedMimeTypes_def mediaMimeTypes_def
      array_includes_def)

lemma example_store_after_first:
  "status (snd (snd (post_upload example_env engine_ended Map.empty (Some example_video)))) = 200"
  "fst (snd (post_upload example_env engine_ended Map.empty (Some example_video)))
     [''my_video'', ''master.m3u8''] = Some (File masterPlaylist)"
  "fst (snd (post_upload example_env engine_ended Map.empty (Some example_video))) [] = None"
  "fst (snd (post_upload example_env engine_ended Map.empty (Some example_video)))
     [''my_video.mp4''] = Some (File ''VIDEO-1'')"
proof -
  let ?fs = "Map.empty([''my_video.mp4''] \<mapsto> File ''VIDEO-1'')"
  let ?f = "\<lparr>originalname = ''my video.mp4'', mimetype = ''video/mp4'', content = ''VIDEO-1'',
             filename = ''my_video.mp4''\<rparr>"
  let ?h = "hls_convert example_env engine_ended upload_options ?fs [''my_video.mp4'']
              ''my_video.mp4''"
  have media: "array_includes mediaMimeTypes (mimetype ?f)"
    by (simp add: mediaMimeTypes_def array_includes_def)
  have ok: "snd (snd ?h) = Inr ()"
    by (rule hls_convert_succeeds)
       (simp_all add: example_names engine_ended_def is_dir_def)
  note m = upload_handler_media [OF media, of example_env engine_ended ?fs]
  show "status (snd (snd (post_upload example_env engine_ended Map.empty (Some example_video)))) = 200"
    using m ok by (simp add: example_first_upload)
  show "fst (snd (post_upload example_env engine_ended Map.empty (Some example_video)))
     [''my_video'', ''master.m3u8''] = Some (File masterPlaylist)"
    using m hls_convert_published [OF ok] by (simp add: example_first_upload example_names)
  show "fst (snd (post_upload example_env engine_ended Map.empty (Some example_video))) [] = None"
    using m hls_convert_frame [of "[]" "''my_video.mp4''" example_env engine_ended upload_options
        ?fs "[''my_video.mp4'']"]
    by (simp add: example_first_upload)
  show "fst (snd (post_upload example_env engine_ended Map.empty (Some example_video)))
     [''my_video.mp4''] = Some (File ''VIDEO-1'')"
    using m hls_convert_frame [of "[''my_video.mp4'']" "''my_video.mp4''" example_env engine_ended
        upload_options ?fs "[''my_video.mp4'']"]
    by (simp add: example_first_upload example_names)
qed

lemma example_second_upload:
  "post_upload example_env eo
     (fst (snd (post_upload example_env engine_ended Map.empty (Some example_video))))
     (Some example_video_again) =
   upload_handler example_env eo
     ((fst (snd (post_upload example_env engine_ended Map.empty (Some example_video))))
        ([''my_video.mp4''] \<mapsto> File ''VIDEO-2''))
     (Some \<lparr>originalname = ''my_video.mp4'', mimetype = ''video/mp4'', content = ''VIDEO-2'',
            filename = ''my_video.mp4''\<rparr>)"
  using post_upload_accepted [of example_video_again
      "fst (snd (post_upload example_env engine_ended Map.empty (Some example_video)))"
      example_env eo]
  by (simp add: example_names example_store_after_first is_dir_def)
     (simp add: example_video_again_def)



lemma masterPlaylist_text:
  "masterPlaylist =
     ''#EXTM3U\<newline>#EXT-X-VERSION:3\<newline>'' @
     ''#EXT-X-STREAM-INF:BANDWIDTH=2800000,RESOLUTION=1280x720\<newline>720p.m3u8\<newline>'' @
     ''#EXT-X-STREAM-INF:BANDWIDTH=1400000,RESOLUTION=854x480\<newline>480p.m3u8\<newline>'' @
     ''#EXT-X-STREAM-INF:BANDWIDTH=800000,RESOLUTION=640x360\<newline>360p.m3u8\<newline>''"
  by (simp add: masterPlaylist_def qualityLevels_def stream_inf_def parseInt_def is_ws_def
      is_digit_def digit_val_def digits_value_def code_unit_def show_number_def show_int_def
      decimal.simps)

text \<open>
  C7. After a Published job the master manifest on disk is the text below: one entry for
  each of the three quality levels, in their order, with the bit rate in bits per second
  as \<^verbatim>\<open>BANDWIDTH\<close>, the configured size as \<^verbatim>\<open>RESOLUTION\<close>, and the name of the playlist
  that the engine was told to write for that level.
\<close>

theorem published_master_manifest:
  assumes "array_includes mediaMimeTypes (mimetype f)"
    and "status (snd (snd (upload_handler env eo fs (Some f)))) = 200"
  shows "fst (snd (upload_handler env eo fs (Some f))) [parse_name (filename f), ''master.m3u8''] =
           Some (File masterPlaylist) \<and>
         masterPlaylist =
           ''#EXTM3U\<newline>#EXT-X-VERSION:3\<newline>'' @
           ''#EXT-X-STREAM-INF:BANDWIDTH=2800000,RESOLUTION=1280x720\<newline>720p.m3u8\<newline>'' @
           ''#EXT-X-STREAM-INF:BANDWIDTH=1400000,RESOLUTION=854x480\<newline>480p.m3u8\<newline>'' @
           ''#EXT-X-STREAM-INF:BANDWIDTH=800000,RESOLUTION=640x360\<newline>360p.m3u8\<newline>'' \<and>
         map (\<lambda>level. (level_name level, level_size level, level_bitrate level)) qualityLevels =
           [(''720p'', ''1280x720'', ''2800k''), (''480p'', ''854x480'', ''1400k''),
            (''360p'', ''640x360'', ''800k'')] \<and>
         (\<exists>pre. fst (upload_handler env eo fs (Some f)) = pre @
            [FfmpegRun (ffmpegCommand upload_options [filename f] [parse_name (filename f)]),
             WriteFileSync [parse_name (filename f), ''master.m3u8''] masterPlaylist]) \<and>
         map target (outputs (ffmpegCommand upload_options [filename f] [parse_name (filename f)])) =
           [[parse_name (filename f), ''720p.m3u8''], [parse_name (filename f), ''480p.m3u8''],
            [parse_name (filename f), ''360p.m3u8'']]"
proof -
  let ?h = "hls_convert env eo upload_options fs [filename f] (filename f)"
  note m = upload_handler_media [OF assms(1), of env eo fs]
  have "\<exists>u. snd (snd ?h) = Inr u"
    using m assms(2) by (cases "snd (snd ?h)") simp_all
  then obtain u where ok: "snd (snd ?h) = Inr u" by blast
  have a: "fst (snd (upload_handler env eo fs (Some f))) [parse_name (filename f), ''master.m3u8''] =
           Some (File masterPlaylist)"
    using m hls_convert_published [OF ok] by simp
  have b: "\<exists>pre. fst (upload_handler env eo fs (Some f)) = pre @
            [FfmpegRun (ffmpegCommand upload_options [filename f] [parse_name (filename f)]),
             WriteFileSync [parse_name (filename f), ''master.m3u8''] masterPlaylist]"
    using m hls_convert_published [OF ok] by simp
  have c: "map (\<lambda>level. (level_name level, level_size level, level_bitrate level)) qualityLevels =
           [(''720p'', ''1280x720'', ''2800k''), (''480p'', ''854x480'', ''1400k''),
            (''360p'', ''640x360'', ''800k'')]"
    by (simp add: qualityLevels_def)
  have d: "map target (outputs (ffmpegCommand upload_options [filename f] [parse_name (filename f)])) =
           [[parse_name (filename f), ''720p.m3u8''], [parse_name (filename f), ''480p.m3u8''],
            [parse_name (filename f), ''360p.m3u8'']]"
    by (simp add: ffmpegCommand_def qualityLevels_def level_output_def)
  from a b c d masterPlaylist_text show ?thesis by blast
qed

theorem published_master_manifest_witness:
  "fst (snd (upload_handler example_env engine_ended
       (Map.empty([''my_video.mp4''] \<mapsto> File ''VIDEO-1''))
       (Some \<lparr>originalname = ''my video.mp4'', mimetype = ''video/mp4'', content = ''VIDEO-1'',
              filename = ''my_video.mp4''\<rparr>))) [''my_video'', ''master.m3u8''] =
     Some (File
       (''#EXTM3U\<newline>#EXT-X-VERSION:3\<newline>'' @
        ''#EXT-X-STREAM-INF:BANDWIDTH=2800000,RESOLUTION=1280x720\<newline>720p.m3u8\<newline>'' @
        ''#EXT-X-STREAM-INF:BANDWIDTH=1400000,RESOLUTION=854x480\<newline>480p.m3u8\<newline>'' @
        ''#EXT-X-STREAM-INF:BANDWIDTH=800000,RESOLUTION=640x360\<newline>360p.m3u8\<newline>''))"
proof -
  have "status (snd (snd (upload_handler example_env engine_ended
       (Map.empty([''my_video.mp4''] \<mapsto> File ''VIDEO-1''))
       (Some \<lparr>originalname = ''my video.mp4'', mimetype = ''video/mp4'', content = ''VIDEO-1'',
              filename = ''my_video.mp4''\<rparr>)))) = 200"
    using example_store_after_first(1) by (simp add: example_first_upload)
  then show ?thesis
    using published_master_manifest [of
      "\<lparr>originalname = ''my video.mp4'', mimetype = ''video/mp4'', content = ''VIDEO-1'',
        filename = ''my_video.mp4''\<rparr>"
      example_env engine_ended "Map.empty([''my_video.mp4''] \<mapsto> File ''VIDEO-1'')"]
    by (simp add: mediaMimeTypes_def array_includes_def example_names)
qed

text \<open>
  C5, amended. Every media upload runs the encoding engine exactly once, whatever the file
  system holds, also when the output directory and a manifest are there already; only the
  creation of the output directory is skipped when it exists.
\<close>

theorem every_media_upload_runs_engine:
  assumes "array_includes mediaMimeTypes (mimetype f)"
  shows "engine_runs (fst (upload_handler env eo fs (Some f))) = 1 \<and>
         FfmpegRun (ffmpegCommand upload_options [filename f] [parse_name (filename f)])
           \<in> set (fst (upload_handler env eo fs (Some f))) \<and>
         (existsSync fs [parse_name (filename f)] \<longrightarrow>
            (\<forall>p. MkdirSync p \<notin> set (fst (upload_handler env eo fs (Some f)))))"
proof -
  let ?h = "hls_convert env eo upload_options fs [filename f] (filename f)"
  note m = upload_handler_media [OF assms, of env eo fs]
  have a: "engine_runs (fst (upload_handler env eo fs (Some f))) = 1"
    using m by (simp add: engine_runs_hls_convert)
  have b: "FfmpegRun (ffmpegCommand upload_options [filename f] [parse_name (filename f)])
             \<in> set (fst ?h) \<and>
           (existsSync fs [parse_name (filename f)] \<longrightarrow> (\<forall>p. MkdirSync p \<notin> set (fst ?h)))"
    by (cases "snd (snd ?h)")
       (use hls_convert_failed hls_convert_published in \<open>fastforce+\<close>)
  from a b m show ?thesis by simp
qed

theorem every_media_upload_runs_engine_witness:
  "engine_runs (fst (upload_handler example_env engine_ended
       (Map.empty([''my_video.mp4''] \<mapsto> File ''VIDEO-1'',
                  [''my_video''] \<mapsto> Dir 4096,
                  [''my_video'', ''master.m3u8''] \<mapsto> File masterPlaylist))
       (Some \<lparr>originalname = ''my video.mp4'', mimetype = ''video/mp4'', content = ''VIDEO-1'',
              filename = ''my_video.mp4''\<rparr>))) = 1"
  using every_media_upload_runs_engine [of
      "\<lparr>originalname = ''my video.mp4'', mimetype = ''video/mp4'', content = ''VIDEO-1'',
        filename = ''my_video.mp4''\<rparr>"
      example_env engine_ended
      "Map.empty([''my_video.mp4''] \<mapsto> File ''VIDEO-1'',
                 [''my_video''] \<mapsto> Dir 4096,
                 [''my_video'', ''master.m3u8''] \<mapsto> File masterPlaylist)"]
  by (simp add: mediaMimeTypes_def array_includes_def)

text \<open>
  C5, as the claim states it, fails: a second upload of an asset whose first job is
  Published runs the engine again.
\<close>

theorem second_start_job_encodes_again_counterexample:
  "status (snd (snd (post_upload example_env engine_ended Map.empty (Some example_video)))) = 200 \<and>
   existsSync (fst (snd (post_upload example_env engine_ended Map.empty (Some example_video))))
     [''my_video'', ''master.m3u8''] \<and>
   engine_runs (fst (post_upload example_env engine_ended
      (fst (snd (post_upload example_env engine_ended Map.empty (Some example_video))))
      (Some example_video_again))) = 1"
proof -
  let ?fs1 = "fst (snd (post_upload example_env engine_ended Map.empty (Some example_video)))"
  let ?fs = "?fs1([''my_video.mp4''] \<mapsto> File ''VIDEO-2'')"
  let ?f = "\<lparr>originalname = ''my_video.mp4'', mimetype = ''video/mp4'', content = ''VIDEO-2'',
             filename = ''my_video.mp4''\<rparr>"
  have media: "array_includes mediaMimeTypes (mimetype ?f)"
    by (simp add: mediaMimeTypes_def array_includes_def)
  have "engine_runs (fst (upload_handler example_env engine_ended ?fs (Some ?f))) = 1"
    using upload_handler_media [OF media, of example_env engine_ended ?fs]
    by (simp add: engine_runs_hls_convert)
  then show ?thesis
    by (simp add: example_second_upload example_store_after_first existsSync_def)
qed

subsection \<open>File names and MIME types\<close>

text \<open>The extension of a name that ends in a dot and a suffix, after a non-empty base.\<close>

lemma basename_no_slash: "CHR ''/'' \<notin> set (basename p)"
  unfolding basename_def by (metis set_rev set_takeWhileD)

lemma basename_id: "CHR ''/'' \<notin> set s \<Longrightarrow> basename s = s"
proof -
  assume a: "CHR ''/'' \<notin> set s"
  then have b: "\<forall>c \<in> set (rev s). c \<noteq> CHR ''/''" by (metis set_rev)
  then have "dropWhile (\<lambda>c. c = CHR ''/'') (rev s) = rev s"
    by (metis dropWhile_eq_self_iff hd_in_set)
  moreover have "takeWhile (\<lambda>c. c \<noteq> CHR ''/'') (rev s) = rev s"
    unfolding takeWhile_eq_all_conv by (rule b)
  ultimately show ?thesis by (simp only: basename_def rev_rev_ident)
qed

lemma basename_idem: "basename (basename p) = basename p"
  by (rule basename_id) (rule basename_no_slash)

lemma extname_basename: "extname (basename p) = extname p"
  by (simp only: extname_def basename_idem)

lemma basename_append_ext:
  assumes "CHR ''/'' \<notin> set ext"
  shows "basename (stem @ CHR ''.'' # ext) =
           rev (takeWhile (\<lambda>c. c \<noteq> CHR ''/'') (rev stem)) @ CHR ''.'' # ext"
proof -
  have ne: "CHR ''.'' \<noteq> CHR ''/''" by simp
  have all: "c \<noteq> CHR ''/''" if "c \<in> set (rev ext @ [CHR ''.''])" for c
  proof -
    from that have "c = CHR ''.'' \<or> c \<in> set ext" by simp
    then show ?thesis using assms ne by blast
  qed
  have r: "rev (stem @ CHR ''.'' # ext) = (rev ext @ [CHR ''.'']) @ rev stem"
    by simp
  have "(rev ext @ [CHR ''.'']) \<noteq> []" by simp
  then have "hd ((rev ext @ [CHR ''.'']) @ rev stem) \<in> set (rev ext @ [CHR ''.''])"
    by (metis hd_append2 hd_in_set)
  then have "\<not> (hd ((rev ext @ [CHR ''.'']) @ rev stem) = CHR ''/'')"
    using all by blast
  then have d: "dropWhile (\<lambda>c. c = CHR ''/'') ((rev ext @ [CHR ''.'']) @ rev stem) =
           (rev ext @ [CHR ''.'']) @ rev stem"
    unfolding dropWhile_eq_self_iff by (rule disjI2)
  have t: "takeWhile (\<lambda>c. c \<noteq> CHR ''/'') ((rev ext @ [CHR ''.'']) @ rev stem) =
           (rev ext @ [CHR ''.'']) @ takeWhile (\<lambda>c. c \<noteq> CHR ''/'') (rev stem)"
    using all by (rule takeWhile_append2)
  show ?thesis
    unfolding basename_def r d t by simp
qed

lemma extname_append:
  assumes "stem \<noteq> []" and "last stem \<noteq> CHR ''/''"
    and "CHR ''.'' \<notin> set ext" and "CHR ''/'' \<notin> set ext" and "ext \<noteq> []"
  shows "extname (stem @ CHR ''.'' # ext) = CHR ''.'' # ext"
proof -
  define b where "b = rev (takeWhile (\<lambda>c. c \<noteq> CHR ''/'') (rev stem))"
  have base: "basename (stem @ CHR ''.'' # ext) = b @ CHR ''.'' # ext"
    unfolding b_def using assms(4) by (rule basename_append_ext)
  have "hd (rev stem) = last stem"
    using assms(1) by (simp add: hd_rev)
  then have "hd (rev stem) \<noteq> CHR ''/''"
    using assms(2) by metis
  moreover have "rev stem \<noteq> []" using assms(1) by simp
  ultimately have "takeWhile (\<lambda>c. c \<noteq> CHR ''/'') (rev stem) \<noteq> []"
    unfolding takeWhile_eq_Nil_iff by blast
  then have b: "b \<noteq> []"
    by (simp only: b_def rev_is_Nil_conv not_False_eq_True)
  have all: "c \<noteq> CHR ''.''" if "c \<in> set (rev ext)" for c
    using that assms(3) by (metis set_rev)
  have "takeWhile (\<lambda>c. c \<noteq> CHR ''.'') (rev ext @ CHR ''.'' # rev b) =
          rev ext @ takeWhile (\<lambda>c. c \<noteq> CHR ''.'') (CHR ''.'' # rev b)"
    using all by (rule takeWhile_append2)
  then have e: "takeWhile (\<lambda>c. c \<noteq> CHR ''.'') (rev (b @ CHR ''.'' # ext)) = rev ext"
    by simp
  have dot: "CHR ''.'' \<in> set (b @ CHR ''.'' # ext)" by simp
  have l: "length (b @ CHR ''.'' # ext) = length b + length ext + 1" by simp
  have "length b \<ge> 1" using b by (cases b) simp_all
  moreover have "length ext \<ge> 1" using assms(5) by (cases ext) simp_all
  ultimately have l3: "length (b @ CHR ''.'' # ext) \<ge> 3" using l by linarith
  have n: "b @ CHR ''.'' # ext \<noteq> ''..''"
  proof
    assume "b @ CHR ''.'' # ext = ''..''"
    then have "length (b @ CHR ''.'' # ext) = length ''..''" by (rule arg_cong)
    then show False using l3 by simp
  qed
  have l2: "length ext + 1 \<noteq> length (b @ CHR ''.'' # ext)"
    using l \<open>length b \<ge> 1\<close> by linarith
  show ?thesis
    unfolding extname_def base Let_def e rev_rev_ident
    using dot n l2 by (simp only: if_False simp_thms)
qed

lemma getMimeType_basename: "getMimeType (basename p) = getMimeType p"
  by (simp only: getMimeType_def extname_basename)

lemma getMimeType_by_extension:
  assumes "stem \<noteq> []" and "last stem \<noteq> CHR ''/''"
  shows "getMimeType (stem @ ''.mkv'') = ''video/x-matroska''"
    and "getMimeType (stem @ ''.avi'') = ''video/x-msvideo''"
    and "getMimeType (stem @ ''.m3u8'') = ''application/x-mpegURL''"
    and "getMimeType (stem @ ''.ts'') = ''video/MP2T''"
proof -
  have mkv: "extname (stem @ ''.mkv'') = ''.mkv''"
    using extname_append [OF assms, of "''mkv''"] by simp
  have avi: "extname (stem @ ''.avi'') = ''.avi''"
    using extname_append [OF assms, of "''avi''"] by simp
  have m3u8: "extname (stem @ ''.m3u8'') = ''.m3u8''"
    using extname_append [OF assms, of "''m3u8''"] by simp
  have ts: "extname (stem @ ''.ts'') = ''.ts''"
    using extname_append [OF assms, of "''ts''"] by simp
  show "getMimeType (stem @ ''.mkv'') = ''video/x-matroska''"
    unfolding getMimeType_def mkv
    by (simp add: toLowerCase_def lower_char_def code_unit_def mimeTypes_def)
  show "getMimeType (stem @ ''.avi'') = ''video/x-msvideo''"
    unfolding getMimeType_def avi
    by (simp add: toLowerCase_def lower_char_def code_unit_def mimeTypes_def)
  show "getMimeType (stem @ ''.m3u8'') = ''application/x-mpegURL''"
    unfolding getMimeType_def m3u8
    by (simp add: toLowerCase_def lower_char_def code_unit_def mimeTypes_def)
  show "getMimeType (stem @ ''.ts'') = ''video/MP2T''"
    unfolding getMimeType_def ts
    by (simp add: toLowerCase_def lower_char_def code_unit_def mimeTypes_def)
qed

lemma not_media_types:
  "\<not> array_includes mediaMimeTypes ''video/x-matroska''"
  "\<not> array_includes mediaMimeTypes ''video/x-msvideo''"
  "\<not> array_includes mediaMimeTypes ''application/x-mpegURL''"
  "\<not> array_includes mediaMimeTypes ''video/MP2T''"
  "\<not> array_includes mediaMimeTypes ''application/octet-stream''"
  "array_includes mediaMimeTypes ''video/mkv''"
  "array_includes mediaMimeTypes ''video/avi''"
  by (simp_all add: array_includes_def mediaMimeTypes_def)


lemma uploads_get_not_media:
  assumes "\<not> array_includes mediaMimeTypes (getMimeType fname)"
  shows "uploads_get fs fname rangeHeader =
           ([], Inr (if existsSync fs [fname] then send 400 ''File is not a supported media type.''
                     else send 404 ''File not found.''))"
  using assms by (cases "fs [fname]") (simp_all add: uploads_get_def existsSync_def)

lemma extname_bare:
  assumes "stem = [] \<or> last stem = CHR ''/''"
    and "CHR ''.'' \<notin> set ext" and "CHR ''/'' \<notin> set ext"
  shows "extname (stem @ CHR ''.'' # ext) = []"
proof -
  have "rev stem = [] \<or> \<not> (hd (rev stem) \<noteq> CHR ''/'')"
    using assms(1) by (cases "stem = []") (simp_all add: hd_rev)
  then have "takeWhile (\<lambda>c. c \<noteq> CHR ''/'') (rev stem) = []"
    unfolding takeWhile_eq_Nil_iff .
  then have base: "basename (stem @ CHR ''.'' # ext) = CHR ''.'' # ext"
    using basename_append_ext [OF assms(3), of stem] by simp
  have all: "c \<noteq> CHR ''.''" if "c \<in> set (rev ext)" for c
    using that assms(2) by (metis set_rev)
  have "takeWhile (\<lambda>c. c \<noteq> CHR ''.'') (rev ext @ [CHR ''.'']) =
          rev ext @ takeWhile (\<lambda>c. c \<noteq> CHR ''.'') [CHR ''.'']"
    using all by (rule takeWhile_append2)
  then have e: "takeWhile (\<lambda>c. c \<noteq> CHR ''.'') (rev (CHR ''.'' # ext)) = rev ext"
    by simp
  have l: "length ext + 1 = length (CHR ''.'' # ext)" by simp
  show ?thesis
    unfolding extname_def base Let_def e rev_rev_ident
    using l by (simp only: simp_thms if_True)
qed

lemma getMimeType_bare:
  assumes "stem = [] \<or> last stem = CHR ''/''"
    and "CHR ''.'' \<notin> set ext" and "CHR ''/'' \<notin> set ext"
  shows "getMimeType (stem @ CHR ''.'' # ext) = ''application/octet-stream''"
proof -
  have e: "extname (stem @ CHR ''.'' # ext) = []"
    using assms by (rule extname_bare)
  show ?thesis
    unfolding getMimeType_def e by (simp add: toLowerCase_def mimeTypes_def)
qed





text \<open>
  C9, amended. Manifests and segments are not served by the range handler. For every
  request path that ends in \<^verbatim>\<open>.m3u8\<close> or \<^verbatim>\<open>.ts\<close> the middleware hands the request to
  \<^verbatim>\<open>express.static\<close>, and the range handler itself, given such a name of a stored file,
  answers 400 whatever the \<^verbatim>\<open>Range\<close> header is.
\<close>

theorem manifest_and_segment_requests_bypass_range_handler:
  assumes "p = stem @ ''.m3u8'' \<or> p = stem @ ''.ts''"
  shows "uploads_middleware p = ExpressStatic \<and>
         (\<forall>fs rangeHeader. existsSync fs [p] \<longrightarrow>
            uploads_get fs p rangeHeader =
              ([], Inr (send 400 ''File is not a supported media type.'')))"
proof -
  have nm: "\<not> array_includes mediaMimeTypes (getMimeType p)"
  proof (cases "stem = [] \<or> last stem = CHR ''/''")
    case True
    have "getMimeType (stem @ ''.m3u8'') = ''application/octet-stream''"
      using getMimeType_bare [OF True, of "''m3u8''"] by simp
    moreover have "getMimeType (stem @ ''.ts'') = ''application/octet-stream''"
      using getMimeType_bare [OF True, of "''ts''"] by simp
    ultimately show ?thesis
      using assms not_media_types(5) by metis
  next
    case False
    then have "stem \<noteq> []" and "last stem \<noteq> CHR ''/''" by blast+
    from getMimeType_by_extension(3,4) [OF this] show ?thesis
      using assms not_media_types(3,4) by metis
  qed
  then have a: "uploads_middleware p = ExpressStatic"
    by (simp add: uploads_middleware_def getMimeType_basename)
  have g: "uploads_get fs p rangeHeader =
             ([], Inr (send 400 ''File is not a supported media type.''))"
    if "existsSync fs [p]" for fs rangeHeader
    using that by (simp add: uploads_get_not_media [OF nm])
  from a g show ?thesis by blast
qed

theorem manifest_and_segment_requests_bypass_range_handler_witness:
  "uploads_middleware ''/my_video/720p_000.ts'' = ExpressStatic \<and>
   uploads_get (Map.empty([''/my_video/720p_000.ts''] \<mapsto> File ''0123456789''))
     ''/my_video/720p_000.ts'' (Some ''bytes=2-5'') =
     ([], Inr (send 400 ''File is not a supported media type.''))"
  using manifest_and_segment_requests_bypass_range_handler
    [of "''/my_video/720p_000.ts''" "''/my_video/720p_000''"]
  by (simp add: existsSync_def)

text \<open>
  C9, as the claim states it, fails: the middleware sends a media file to the range
  handler and a manifest or a segment to \<^verbatim>\<open>express.static\<close>; the range handler answers
  the same \<^verbatim>\<open>Range\<close> header 206 for a media file and 400 for a segment.
\<close>

theorem segment_not_served_like_media_counterexample:
  "uploads_middleware ''/my_video.mp4'' = CallNext \<and>
   uploads_middleware ''/my_video/master.m3u8'' = ExpressStatic \<and>
   uploads_middleware ''/my_video/720p_000.ts'' = ExpressStatic \<and>
   uploads_get (Map.empty([''v.mp4''] \<mapsto> File ''0123456789'')) ''v.mp4'' (Some ''bytes=2-5'') =
     ([CreateReadStream [''v.mp4''] (Some (Some 2, Some 5))],
      Inr \<lparr>status = 206,
           headers = [(''Content-Range'', ''bytes 2-5/10''), (''Accept-Ranges'', ''bytes''),
                      (''Content-Length'', ''4''), (''Content-Type'', ''video/mp4'')],
           body = Pipe ''2345''\<rparr>) \<and>
   uploads_get (Map.empty([''v.ts''] \<mapsto> File ''0123456789'')) ''v.ts'' (Some ''bytes=2-5'') =
     ([], Inr (send 400 ''File is not a supported media type.''))"
  by (simp add: uploads_middleware_def uploads_get_def serve_range_def js_defs mime_defs
      range_head_def chunksize_def show_number_def show_int_def decimal.simps
      MAX_SAFE_INTEGER_def)

subsection \<open>Ingestion from a URL\<close>

lemma engine_runs_simps:
  "engine_runs [] = 0"
  "engine_runs (CreateWriteStream p # acts) = engine_runs acts"
  by (simp_all add: engine_runs_def)

lemma upload_url_fetched:
  assumes "truthy fileUrl"
  shows "upload_url env eo fs fileUrl (Some pn) (Fetched contentType contentLength bytes) =
     (let sanitizedFilename = sanitizeFilename (url_filename pn contentType);
          mimeType = url_mimeType contentType;
          metadata = JObj [(''name'', JStr sanitizedFilename),
                           (''size'', JNum (content_length_or_0 contentLength)),
                           (''type'', JStr mimeType)]
      in case writeFileSync fs [sanitizedFilename] bytes of
           Inl e \<Rightarrow> ([CreateWriteStream [sanitizedFilename]], fs, download_failed)
         | Inr fs1 \<Rightarrow>
             if array_includes mediaMimeTypes mimeType then
               (case snd (snd (hls_convert env eo upload_url_options fs1 [sanitizedFilename]
                                 sanitizedFilename)) of
                  Inl e \<Rightarrow>
                    (CreateWriteStream [sanitizedFilename] #
                       fst (hls_convert env eo upload_url_options fs1 [sanitizedFilename]
                              sanitizedFilename),
                     fst (snd (hls_convert env eo upload_url_options fs1 [sanitizedFilename]
                                 sanitizedFilename)),
                     download_failed)
                | Inr u \<Rightarrow>
                    (CreateWriteStream [sanitizedFilename] #
                       fst (hls_convert env eo upload_url_options fs1 [sanitizedFilename]
                              sanitizedFilename),
                     fst (snd (hls_convert env eo upload_url_options fs1 [sanitizedFilename]
                                 sanitizedFilename)),
                     send_json 200
                       [(''message'',
                           JStr ''Media file downloaded and converted to HLS successfully via URL.''),
                        (''watchUrl'',
                           JStr (origin env @ ''/watch/'' @ encodeURIComponent sanitizedFilename)),
                        (''fileUrl'', JNull),
                        (''metadata'', metadata)]))
             else
               ([CreateWriteStream [sanitizedFilename]], fs1,
                send_json 200
                  [(''message'', JStr ''File downloaded successfully via URL.''),
                   (''watchUrl'', JNull),
                   (''fileUrl'',
                      JStr (origin env @ ''/uploads/'' @ encodeURIComponent sanitizedFilename)),
                   (''metadata'', metadata)]))"
  using assms
  by (simp add: upload_url_def Let_def split: sum.splits prod.splits)

text \<open>
  C8, amended. In a URL ingestion that reaches the download, the MIME type is the
  \<^verbatim>\<open>content-type\<close> header when it is present and not empty, and
  \<^verbatim>\<open>application/octet-stream\<close> otherwise; the file name is not consulted. The asset is media
  when that type is in \<^verbatim>\<open>mediaMimeTypes\<close>: the engine runs only then, and a 200 answer
  carries the type in its metadata, a watch address for media and a file address
  otherwise. Without the header the asset is raw: the engine is not run.
\<close>

theorem url_classification_by_content_type:
  assumes "truthy fileUrl"
    and "upload_url env eo fs fileUrl (Some pn) (Fetched contentType contentLength bytes) =
           (acts, fs', resp)"
  shows "(\<not> truthy contentType \<longrightarrow>
            url_mimeType contentType = ''application/octet-stream'' \<and> engine_runs acts = 0) \<and>
         (\<forall>t. contentType = Some t \<and> t \<noteq> [] \<longrightarrow> url_mimeType contentType = t) \<and>
         (engine_runs acts = 1 \<longrightarrow> array_includes mediaMimeTypes (url_mimeType contentType)) \<and>
         (status resp = 200 \<longrightarrow>
            (engine_runs acts = 1 \<longleftrightarrow> array_includes mediaMimeTypes (url_mimeType contentType)) \<and>
            (\<exists>msg w u nm sz. body resp =
               SendJson (JObj [(''message'', msg), (''watchUrl'', w), (''fileUrl'', u),
                               (''metadata'',
                                  JObj [(''name'', nm), (''size'', sz),
                                        (''type'', JStr (url_mimeType contentType))])]) \<and>
               (w \<noteq> JNull \<longleftrightarrow> array_includes mediaMimeTypes (url_mimeType contentType)) \<and>
               (u = JNull \<longleftrightarrow> array_includes mediaMimeTypes (url_mimeType contentType))))"
proof -
  let ?n = "sanitizeFilename (url_filename pn contentType)"
  have dflt: "\<not> truthy contentType \<Longrightarrow> url_mimeType contentType = ''application/octet-stream''"
    by (auto simp add: truthy_def url_mimeType_def or_default_def split: option.splits)
  have some: "\<forall>t. contentType = Some t \<and> t \<noteq> [] \<longrightarrow> url_mimeType contentType = t"
    by (simp add: url_mimeType_def or_default_def)
  have st: "status download_failed = 500"
    by (simp add: download_failed_def send_json_def)
  have runs: "engine_runs (fst (hls_convert env eo upload_url_options fs1 [?n] ?n)) = 1" for fs1
    by (rule engine_runs_hls_convert)
  show ?thesis
  proof (cases "array_includes mediaMimeTypes (url_mimeType contentType)")
    case True
    then have "truthy contentType"
      using dflt not_media_types(5) by metis
    with True some runs st assms(2) show ?thesis
      unfolding upload_url_fetched [OF assms(1)] Let_def
      by (auto simp add: engine_runs_simps send_json_def split: sum.splits)
  next
    case False
    with dflt some st assms(2) show ?thesis
      unfolding upload_url_fetched [OF assms(1)] Let_def
      by (auto simp add: engine_runs_simps send_json_def split: sum.splits)
  qed
qed

theorem url_classification_by_content_type_witness:
  "engine_runs (fst (upload_url example_env engine_ended Map.empty
      (Some ''http://example.org/clip.mp4'') (Some ''/clip.mp4'')
      (Fetched None (Some ''7'') ''VIDEO-1''))) = 0 \<and>
   url_mimeType None = ''application/octet-stream'' \<and>
   url_mimeType (Some ''video/webm'') = ''video/webm''"
  using url_classification_by_content_type [of "Some ''http://example.org/clip.mp4''"
      example_env engine_ended Map.empty "''/clip.mp4''" None "Some ''7''" "''VIDEO-1''"
      "fst (upload_url example_env engine_ended Map.empty
         (Some ''http://example.org/clip.mp4'') (Some ''/clip.mp4'')
         (Fetched None (Some ''7'') ''VIDEO-1''))"
      "fst (snd (upload_url example_env engine_ended Map.empty
         (Some ''http://example.org/clip.mp4'') (Some ''/clip.mp4'')
         (Fetched None (Some ''7'') ''VIDEO-1'')))"
      "snd (snd (upload_url example_env engine_ended Map.empty
         (Some ''http://example.org/clip.mp4'') (Some ''/clip.mp4'')
         (Fetched None (Some ''7'') ''VIDEO-1'')))"]
    url_classification_by_content_type [of "Some ''http://example.org/clip.webm''"
      example_env engine_ended Map.empty "''/clip.webm''" "Some ''video/webm''" "Some ''7''"
      "''VIDEO-1''"
      "fst (upload_url example_env engine_ended Map.empty
         (Some ''http://example.org/clip.webm'') (Some ''/clip.webm'')
         (Fetched (Some ''video/webm'') (Some ''7'') ''VIDEO-1''))"
      "fst (snd (upload_url example_env engine_ended Map.empty
         (Some ''http://example.org/clip.webm'') (Some ''/clip.webm'')
         (Fetched (Some ''video/webm'') (Some ''7'') ''VIDEO-1'')))"
      "snd (snd (upload_url example_env engine_ended Map.empty
         (Some ''http://example.org/clip.webm'') (Some ''/clip.webm'')
         (Fetched (Some ''video/webm'') (Some ''7'') ''VIDEO-1'')))"]
  by (simp add: truthy_def)

text \<open>
  C8, as the claim states it, fails: a download of \<^verbatim>\<open>/clip.mp4\<close> without a
  \<^verbatim>\<open>content-type\<close> header is stored as a raw file of type \<^verbatim>\<open>application/octet-stream\<close>,
  although the extension of its name stands for the media type \<^verbatim>\<open>video/mp4\<close>.
\<close>

theorem url_extension_not_consulted_counterexample:
  "getMimeType (url_filename ''/clip.mp4'' None) = ''video/mp4'' \<and>
   array_includes mediaMimeTypes ''video/mp4'' \<and>
   fst (upload_url example_env engine_ended Map.empty
          (Some ''http://example.org/clip.mp4'') (Some ''/clip.mp4'')
          (Fetched None (Some ''7'') ''VIDEO-1'')) = [CreateWriteStream [''clip.mp4'']] \<and>
   snd (snd (upload_url example_env engine_ended Map.empty
          (Some ''http://example.org/clip.mp4'') (Some ''/clip.mp4'')
          (Fetched None (Some ''7'') ''VIDEO-1''))) =
     send_json 200
       [(''message'', JStr ''File downloaded successfully via URL.''),
        (''watchUrl'', JNull),
        (''fileUrl'', JStr ''http://localhost:8000/uploads/clip.mp4''),
        (''metadata'',
           JObj [(''name'', JStr ''clip.mp4''), (''size'', JNum 7),
                 (''type'', JStr ''application/octet-stream'')])]"
  by (simp add: upload_url_def url_filename_def url_mimeType_def or_default_def
      content_length_or_0_def truthy_def parseInt_def is_ws_def is_digit_def digit_val_def
      digits_value_def sanitizeFilename_def safe_char_def code_unit_def writeFileSync_def
      is_dir_def existsSync_def origin_def example_env_def encodeURIComponent_def
      encode_char_def mime_defs Let_def)

subsection \<open>Stored file names\<close>

lemma safe_underscore: "safe_char CHR ''_''"
  by (simp add: safe_char_def)

lemma sanitizeFilename_safe: "\<forall>c \<in> set (sanitizeFilename name). safe_char c"
proof
  fix c
  assume "c \<in> set (sanitizeFilename name)"
  then have "c \<in> (\<lambda>c. if safe_char c then c else CHR ''_'') ` set name"
    unfolding sanitizeFilename_def set_map .
  then obtain d where d: "c = (if safe_char d then d else CHR ''_'')"
    by blast
  show "safe_char c"
  proof (cases "safe_char d")
    case True
    with d show ?thesis by (simp only: if_True)
  next
    case False
    with d have "c = CHR ''_''" by (simp only: if_False)
    then show ?thesis using safe_underscore by (simp only:)
  qed
qed

lemma multer_single_stored:
  assumes "multer_single fs (Some part) = Inr (fs', file)"
  shows "file = Some \<lparr>originalname = originalname part, mimetype = mimetype part,
                       content = content part,
                       filename = sanitizeFilename (originalname part)\<rparr> \<and>
         fs' = fs([sanitizeFilename (originalname part)] \<mapsto> File (content part))"
proof -
  have ff: "fileFilter part"
    using assms by (cases "fileFilter part") (simp_all add: multer_single_def)
  obtain g where w: "writeFileSync fs [storage_filename part] (content part) = Inr g"
    using assms ff
    by (cases "writeFileSync fs [storage_filename part] (content part)")
       (simp_all add: multer_single_def)
  have g: "g = fs([storage_filename part] \<mapsto> File (content part))"
    using w unfolding writeFileSync_def by (simp split: if_splits)
  show ?thesis
    using assms ff w g by (simp add: multer_single_def storage_filename_def)
qed

lemma sanitizeFilename_length: "length (sanitizeFilename name) = length name"
  unfolding sanitizeFilename_def by (rule length_map)

lemma sanitizeFilename_nth:
  "i < length name \<Longrightarrow>
   sanitizeFilename name ! i = (if safe_char (name ! i) then name ! i else CHR ''_'')"
  unfolding sanitizeFilename_def by (rule nth_map)

text \<open>
  C6, amended. An accepted upload is stored under its original name with every character
  outside \<^verbatim>\<open>[A-Za-z0-9._-]\<close> replaced by \<^verbatim>\<open>_\<close>: the stored name has the length of the
  original, agrees with it at every allowed character, and holds allowed characters only.
  The file is written at that name, replacing what was there: a later upload whose
  sanitized name is the same takes the place of the earlier one.
\<close>

theorem sanitized_name_is_storage_key:
  assumes "multer_single fs (Some part) = Inr (fs', file)"
  shows "file = Some \<lparr>originalname = originalname part, mimetype = mimetype part,
                       content = content part,
                       filename = sanitizeFilename (originalname part)\<rparr> \<and>
         fs' = fs([sanitizeFilename (originalname part)] \<mapsto> File (content part)) \<and>
         length (sanitizeFilename (originalname part)) = length (originalname part) \<and>
         (\<forall>i < length (originalname part).
            sanitizeFilename (originalname part) ! i =
              (if safe_char (originalname part ! i) then originalname part ! i else CHR ''_'')) \<and>
         (\<forall>c \<in> set (sanitizeFilename (originalname part)). safe_char c) \<and>
         (\<forall>other fs'' file'.
            sanitizeFilename (originalname other) = sanitizeFilename (originalname part) \<and>
            multer_single fs' (Some other) = Inr (fs'', file') \<longrightarrow>
            fs'' [sanitizeFilename (originalname part)] = Some (File (content other)))"
proof -
  note s = multer_single_stored [OF assms]
  have b: "\<forall>i < length (originalname part).
            sanitizeFilename (originalname part) ! i =
              (if safe_char (originalname part ! i) then originalname part ! i else CHR ''_'')"
  proof (intro allI impI)
    fix i
    assume "i < length (originalname part)"
    then show "sanitizeFilename (originalname part) ! i =
              (if safe_char (originalname part ! i) then originalname part ! i else CHR ''_'')"
      by (rule sanitizeFilename_nth)
  qed
  have c: "fs'' [sanitizeFilename (originalname part)] = Some (File (content other))"
    if n: "sanitizeFilename (originalname other) = sanitizeFilename (originalname part)"
      and m: "multer_single fs' (Some other) = Inr (fs'', file')" for other fs'' file'
  proof -
    from multer_single_stored [OF m]
    have "fs'' = fs'([sanitizeFilename (originalname other)] \<mapsto> File (content other))"
      by (rule conjunct2)
    then show ?thesis unfolding n by (simp only: fun_upd_same)
  qed
  show ?thesis
  proof (intro conjI)
    show "file = Some \<lparr>originalname = originalname part, mimetype = mimetype part,
                       content = content part,
                       filename = sanitizeFilename (originalname part)\<rparr>"
      using s by (rule conjunct1)
    show "fs' = fs([sanitizeFilename (originalname part)] \<mapsto> File (content part))"
      using s by (rule conjunct2)
    show "length (sanitizeFilename (originalname part)) = length (originalname part)"
      by (rule sanitizeFilename_length)
    show "\<forall>i < length (originalname part).
            sanitizeFilename (originalname part) ! i =
              (if safe_char (originalname part ! i) then originalname part ! i else CHR ''_'')"
      by (rule b)
    show "\<forall>c \<in> set (sanitizeFilename (originalname part)). safe_char c"
      by (rule sanitizeFilename_safe)
    show "\<forall>other fs'' file'.
            sanitizeFilename (originalname other) = sanitizeFilename (originalname part) \<and>
            multer_single fs' (Some other) = Inr (fs'', file') \<longrightarrow>
            fs'' [sanitizeFilename (originalname part)] = Some (File (content other))"
    proof (intro allI impI, elim conjE)
      fix other fs'' file'
      assume "sanitizeFilename (originalname other) = sanitizeFilename (originalname part)"
        and "multer_single fs' (Some other) = Inr (fs'', file')"
      then show "fs'' [sanitizeFilename (originalname part)] = Some (File (content other))"
        by (rule c)
    qed
  qed
qed

theorem sanitized_name_is_storage_key_witness:
  "Map.empty([''my_video.mp4''] \<mapsto> File ''VIDEO-1'') =
     Map.empty([sanitizeFilename (originalname example_video)] \<mapsto> File (content example_video)) \<and>
   length (sanitizeFilename (originalname example_video)) = length (originalname example_video)"
  using sanitized_name_is_storage_key [of Map.empty example_video
      "Map.empty([''my_video.mp4''] \<mapsto> File ''VIDEO-1'')"
      "Some \<lparr>originalname = ''my video.mp4'', mimetype = ''video/mp4'', content = ''VIDEO-1'',
             filename = ''my_video.mp4''\<rparr>"]
  by (simp add: multer_single_def fileFilter_def allowedMimeTypes_def mediaMimeTypes_def
      array_includes_def storage_filename_def sanitizeFilename_def safe_char_def code_unit_def
      writeFileSync_def is_dir_def existsSync_def example_video_def)

text \<open>
  C6, as the claim states it, fails: two uploads with different original names and the same
  sanitized name end as one stored file, which holds the content of the second.
\<close>

theorem colliding_names_overwrite_counterexample:
  "originalname example_video \<noteq> originalname example_video_again \<and>
   multer_single Map.empty (Some example_video) =
     Inr (Map.empty([''my_video.mp4''] \<mapsto> File ''VIDEO-1''),
          Some \<lparr>originalname = ''my video.mp4'', mimetype = ''video/mp4'', content = ''VIDEO-1'',
                 filename = ''my_video.mp4''\<rparr>) \<and>
   multer_single (Map.empty([''my_video.mp4''] \<mapsto> File ''VIDEO-1'')) (Some example_video_again) =
     Inr (Map.empty([''my_video.mp4''] \<mapsto> File ''VIDEO-2''),
          Some \<lparr>originalname = ''my_video.mp4'', mimetype = ''video/mp4'', content = ''VIDEO-2'',
                 filename = ''my_video.mp4''\<rparr>)"
  by (simp add: multer_single_def fileFilter_def allowedMimeTypes_def mediaMimeTypes_def
      array_includes_def storage_filename_def sanitizeFilename_def safe_char_def code_unit_def
      writeFileSync_def is_dir_def existsSync_def example_video_def example_video_again_def)

end
